theory Spec2Isabelle
  imports Main "HOL-Library.Sublist"
begin

section \<open>JavaScript values\<close>

text \<open>
  The synchronisation engine lives in the class \<open>SyncManager\<close>, which exists twice: in
  \<open>src/index.js\<close> (products, inventory, orders, tracking) and in \<open>src/unnamed/part_000\<close>
  (the simplified application: inventory and orders only). Where the two files differ, the
  definition taken from \<open>part_000\<close> carries the suffix \<open>_simplified\<close>.

  A JavaScript string is a list of code units, written here as a HOL \<open>string\<close>. A field the
  source treats as optional (it reads it through \<open>?.\<close>, \<open>||\<close> or an \<open>if (!x)\<close> guard) is an
  \<open>option\<close>, with \<open>None\<close> for \<open>null\<close> and \<open>undefined\<close>. Fields the source dereferences without a
  guard (\<open>product.variants\<close>, \<open>miraklOrder.order_lines\<close>, the lists the gateways return) are
  taken to be present, as the remote interfaces document them. Identifiers that the remote
  interface defines as positive integers are \<open>nat\<close>; quantities are \<open>int\<close>.

  The source uses the same field names in several objects (\<open>sku\<close>, \<open>price\<close>, \<open>quantity\<close>,
  \<open>title\<close>, \<open>tags\<close>, \<open>note\<close>), so every record field carries a prefix that names its record.
\<close>

definition truthy :: "string option \<Rightarrow> bool" where
  \<comment> \<open>truthiness of a value that is a string, \<open>null\<close> or \<open>undefined\<close>: the empty string is falsy\<close>
  "truthy v = (case v of None \<Rightarrow> False | Some s \<Rightarrow> s \<noteq> [])"

definition or_str :: "string option \<Rightarrow> string \<Rightarrow> string" where
  \<comment> \<open>\<open>v || d\<close> for an optional string \<open>v\<close>\<close>
  "or_str v d = (case v of None \<Rightarrow> d | Some s \<Rightarrow> if s = [] then d else s)"

definition or_zero :: "int option \<Rightarrow> int" where
  \<comment> \<open>\<open>v || 0\<close> for an optional integer \<open>v\<close>: \<open>null\<close>, \<open>undefined\<close> and \<open>0\<close> all give \<open>0\<close>\<close>
  "or_zero v = (case v of None \<Rightarrow> 0 | Some n \<Rightarrow> n)"

definition digit_char :: "nat \<Rightarrow> char" where
  "digit_char d = char_of (48 + d)"

function show_nat :: "nat \<Rightarrow> string" where
  \<comment> \<open>\<open>String(n)\<close> for a non-negative integer: its decimal digits\<close>
  "show_nat n = (if n < 10 then [digit_char n] else show_nat (n div 10) @ [digit_char (n mod 10)])"
  by pat_completeness auto
termination
  by (relation "measure (\<lambda>n. n)") auto

declare show_nat.simps [simp del]

definition show_int :: "int \<Rightarrow> string" where
  \<comment> \<open>\<open>String(i)\<close> for an integer\<close>
  "show_int i = (if i < 0 then CHR ''-'' # show_nat (nat (- i)) else show_nat (nat i))"

definition join :: "string \<Rightarrow> string list \<Rightarrow> string" where
  \<comment> \<open>\<open>Array.prototype.join\<close> on an array of strings\<close>
  "join sep xs = (case xs of [] \<Rightarrow> [] | y # ys \<Rightarrow> y @ concat (map (\<lambda>s. sep @ s) ys))"

fun includes_str :: "string \<Rightarrow> string \<Rightarrow> bool" where
  \<comment> \<open>\<open>s.includes(sub)\<close>: \<open>sub\<close> occurs in \<open>s\<close>\<close>
  "includes_str sub [] = (sub = [])"
| "includes_str sub (c # cs) = (prefix sub (c # cs) \<or> includes_str sub cs)"

section \<open>Description sanitisation\<close>

function strip_tags :: "string \<Rightarrow> string" where
  \<comment> \<open>\<open>s.replace(/<[^>]*>/g, '')\<close>: scanning from the left, a \<open><\<close> that has a \<open>>\<close> somewhere
      after it starts a match, which extends to the first such \<open>>\<close> and is removed; the scan
      goes on behind the match. A \<open><\<close> with no \<open>>\<close> after it matches nothing and stays.\<close>
  "strip_tags [] = []"
| "strip_tags (c # cs) =
     (if c = CHR ''<'' then
        (case dropWhile (\<lambda>d. d \<noteq> CHR ''>'') cs of
           [] \<Rightarrow> c # strip_tags cs
         | _ # rest \<Rightarrow> strip_tags rest)
      else c # strip_tags cs)"
  by pat_completeness auto
termination
proof (relation "measure length")
  fix c :: char and cs x rest
  assume "dropWhile (\<lambda>d. d \<noteq> CHR ''>'') cs = x # rest"
  then have "Suc (length rest) = length (dropWhile (\<lambda>d. d \<noteq> CHR ''>'') cs)"
    by simp
  also have "\<dots> \<le> length cs"
    by (rule length_dropWhile_le)
  finally show "(rest, c # cs) \<in> measure length"
    by simp
qed auto

definition double_quotes :: "string \<Rightarrow> string" where
  \<comment> \<open>\<open>s.replace(/"/g, '""')\<close>\<close>
  "double_quotes s = concat (map (\<lambda>c. if c = CHR 0x22 then [c, c] else [c]) s)"

definition cleanDescription :: "string option \<Rightarrow> string" where
  \<comment> \<open>\<open>src/index.js\<close>, \<open>SyncManager.cleanDescription\<close>\<close>
  "cleanDescription html =
     (case html of
        None \<Rightarrow> []
      | Some s \<Rightarrow> if s = [] then [] else take 500 (double_quotes (strip_tags s)))"

definition cleanDescription_simplified :: "string option \<Rightarrow> string" where
  \<comment> \<open>\<open>src/unnamed/part_000\<close>, \<open>SyncManager.cleanDescription\<close>\<close>
  "cleanDescription_simplified html =
     (case html of
        None \<Rightarrow> ''Product description''
      | Some s \<Rightarrow> if s = [] then ''Product description''
                  else take 200 (double_quotes (strip_tags s)))"

section \<open>Gateways, the checkpoint and the world\<close>

text \<open>
  A remote call either throws or resolves to a value. The gateway classes \<open>ShopifyClient\<close>
  and \<open>MiraklClient\<close> only wrap one HTTP request each and rethrow its failure, so a routine
  takes the behaviour of each gateway method it calls as a parameter.
\<close>

datatype js_error = Error string

fun message :: "js_error \<Rightarrow> string" where
  "message (Error m) = m"

datatype 'a response = Throws js_error | Resolves 'a

record sync_state =
  lastProductSync :: "string option"
  lastInventorySync :: "string option"
  lastOrderSync :: "string option"
  lastTrackingSync :: "string option"
  processedOrders :: "string list"

datatype fs_file = Missing | Unreadable js_error | Contents string

datatype log_entry = Error_loading_sync_state string

definition zero_state :: sync_state where
  \<comment> \<open>the object literal \<open>loadSyncState\<close> returns; the one of \<open>part_000\<close> has the same values
      and leaves out the two timestamps that file never uses\<close>
  "zero_state = \<lparr> lastProductSync = None, lastInventorySync = None, lastOrderSync = None,
                   lastTrackingSync = None, processedOrders = [] \<rparr>"

definition read_sync_state :: "(string \<Rightarrow> sync_state response) \<Rightarrow> fs_file \<Rightarrow> sync_state option response" where
  \<comment> \<open>the body of the \<open>try\<close> in \<open>loadSyncState\<close>: \<open>None\<close> when \<open>existsSync\<close> is false and control
      falls out of the block; \<open>parse\<close> is \<open>JSON.parse\<close> on a file that holds a checkpoint\<close>
  "read_sync_state parse f =
     (case f of
        Missing \<Rightarrow> Resolves None
      | Unreadable e \<Rightarrow> Throws e
      | Contents txt \<Rightarrow>
          (case parse txt of Throws e \<Rightarrow> Throws e | Resolves s \<Rightarrow> Resolves (Some s)))"

definition loadSyncState :: "(string \<Rightarrow> sync_state response) \<Rightarrow> fs_file \<Rightarrow> sync_state \<times> log_entry list" where
  \<comment> \<open>the value returned and the lines written to \<open>console.error\<close>\<close>
  "loadSyncState parse f =
     (case read_sync_state parse f of
        Resolves (Some s) \<Rightarrow> (s, [])
      | Resolves None \<Rightarrow> (zero_state, [])
      | Throws e \<Rightarrow> (zero_state, [Error_loading_sync_state (message e)]))"

section \<open>Catalog, inventory and the offer import\<close>

record variant =
  v_id :: nat
  v_sku :: "string option"
  v_barcode :: "string option"
  v_price :: "string option"
  v_inventory_item_id :: nat
  v_inventory_quantity :: "int option"

record product =
  p_title :: "string option"
  p_body_html :: "string option"
  p_variants :: "variant list"

record inventory_level =
  l_inventory_item_id :: nat
  l_available :: "int option"

record import_result =
  import_id :: nat

datatype sync_result = Success nat | Import_response import_result | Failure string

section \<open>Marketplace orders and storefront orders\<close>

record customer =
  cu_email :: "string option"

record offer =
  of_product_title :: "string option"
  of_sku :: "string option"

record order_line =
  ol_offer :: "offer option"
  ol_price :: "string option"
  ol_quantity :: "int option"

record address =
  ad_firstname :: "string option"
  ad_lastname :: "string option"
  ad_street_1 :: "string option"
  ad_street_2 :: "string option"
  ad_city :: "string option"
  ad_state :: "string option"
  ad_country_iso_code :: "string option"
  ad_zip_code :: "string option"
  ad_phone :: "string option"

record mirakl_order =
  mo_order_id :: string
  mo_customer :: "customer option"
  mo_order_lines :: "order_line list"
  mo_shipping_address :: "address option"
  mo_billing_address :: "address option"

record line_item =
  li_title :: string
  li_price :: "string option"
  li_quantity :: "int option"
  li_sku :: "string option"

record shopify_address =
  sa_first_name :: "string option"
  sa_last_name :: "string option"
  sa_address1 :: "string option"
  sa_address2 :: "string option"
  sa_city :: "string option"
  sa_province :: "string option"
  sa_country :: "string option"
  sa_zip :: "string option"
  sa_phone :: "string option"

record shopify_order_data =
  od_email :: string
  od_line_items :: "line_item list"
  od_shipping_address :: "shopify_address option"
  od_billing_address :: "shopify_address option"
  od_financial_status :: string
  od_tags :: string
  od_note :: string

record shopify_order =
  so_id :: nat
  so_order_number :: nat
  so_tags :: "string option"
  so_note :: "string option"
  so_fulfillment_status :: "string option"

record fulfillment =
  f_tracking_number :: "string option"
  f_tracking_company :: "string option"
  f_tracking_url :: "string option"

record tracking_info =
  ti_carrier_code :: string
  ti_tracking_number :: string
  ti_tracking_url :: "string option"

text \<open>
  The world a routine runs in: the checkpoint held in memory (\<open>this.syncState\<close>), the file
  \<open>sync-state.json\<close>, and, for each remote call that writes, the arguments of the calls made
  so far, in order (a call that throws is recorded too: the request was sent).
\<close>

record world =
  syncState :: sync_state
  disk :: fs_file
  offer_imports :: "string list"
  createOrder_calls :: "shopify_order_data list"
  getFulfillments_calls :: "nat list"
  updateTracking_calls :: "(string \<times> tracking_info) list"

record env =
  now :: string
  stringify :: "sync_state \<Rightarrow> string"
  write_error :: "js_error option"

definition saveSyncState :: "env \<Rightarrow> world \<Rightarrow> world" where
  \<comment> \<open>\<open>writeFileSync\<close> of the serialised checkpoint; a failure of the write is caught and logged\<close>
  "saveSyncState e w =
     (case write_error e of
        None \<Rightarrow> w\<lparr>disk := Contents (stringify e (syncState w))\<rparr>
      | Some _ \<Rightarrow> w)"

section \<open>Offer and inventory routines\<close>

definition opt_str :: "string option \<Rightarrow> string" where
  \<comment> \<open>how \<open>join\<close> renders an element: \<open>null\<close> and \<open>undefined\<close> as the empty string\<close>
  "opt_str v = (case v of None \<Rightarrow> [] | Some s \<Rightarrow> s)"

definition quoted :: "string \<Rightarrow> string" where
  "quoted s = CHR 0x22 # s @ [CHR 0x22]"

definition product_sku :: "variant \<Rightarrow> string" where
  \<comment> \<open>\<open>src/index.js\<close>, \<open>syncProducts\<close>: \<open>variant.sku || `SHOPIFY-${variant.id}`\<close>\<close>
  "product_sku v = or_str (v_sku v) (''SHOPIFY-'' @ show_nat (v_id v))"

definition product_fields :: "product \<Rightarrow> variant \<Rightarrow> string list" where
  \<comment> \<open>\<open>src/index.js\<close>, \<open>syncProducts\<close>: the array that is joined into one line\<close>
  "product_fields p v =
     [product_sku v, product_sku v, ''SHOP_SKU'', opt_str (v_price v),
      show_int (or_zero (v_inventory_quantity v)), ''11'',
      quoted (cleanDescription (p_body_html p))]"

definition product_header :: string where
  "product_header = ''sku;product-id;product-id-type;price;quantity;state;description''"

definition product_csvLines :: "product list \<Rightarrow> string list" where
  "product_csvLines products =
     product_header # concat (map (\<lambda>p. map (\<lambda>v. join '';'' (product_fields p v)) (p_variants p)) products)"

definition syncProducts ::
  "env \<Rightarrow> product list response \<Rightarrow> (string \<Rightarrow> import_result response) \<Rightarrow> world \<Rightarrow> world \<times> sync_result" where
  \<comment> \<open>\<open>src/index.js\<close>, \<open>SyncManager.syncProducts\<close>\<close>
  "syncProducts e getProducts importProducts w =
     (case getProducts of
        Throws err \<Rightarrow> (w, Failure (message err))
      | Resolves products \<Rightarrow>
          if products = [] then (w, Success 0)
          else
            let csvContent = join [CHR 0x0A] (product_csvLines products);
                w1 = w\<lparr>offer_imports := offer_imports w @ [csvContent]\<rparr>
            in (case importProducts csvContent of
                  Throws err \<Rightarrow> (w1, Failure (message err))
                | Resolves result \<Rightarrow>
                    (saveSyncState e (w1\<lparr>syncState := (syncState w1)\<lparr>lastProductSync := Some (now e)\<rparr>\<rparr>),
                     Import_response result)))"

definition inventoryMap :: "inventory_level list \<Rightarrow> (nat \<rightharpoonup> int)" where
  \<comment> \<open>\<open>src/index.js\<close>, \<open>syncInventory\<close>: a later level of the same item overwrites an earlier one\<close>
  "inventoryMap levels =
     fold (\<lambda>level m. m(l_inventory_item_id level \<mapsto> or_zero (l_available level))) levels Map.empty"

definition inventory_quantity :: "(nat \<rightharpoonup> int) \<Rightarrow> variant \<Rightarrow> int" where
  \<comment> \<open>\<open>src/index.js\<close>, \<open>syncInventory\<close>: \<open>inventoryMap[variant.inventory_item_id] || 0\<close>\<close>
  "inventory_quantity m v = or_zero (m (v_inventory_item_id v))"

definition inventory_line :: "(nat \<rightharpoonup> int) \<Rightarrow> variant \<Rightarrow> string" where
  \<comment> \<open>\<open>src/index.js\<close>, \<open>syncInventory\<close>: \<open>`${variant.sku || variant.id};${quantity}`\<close>\<close>
  "inventory_line m v =
     or_str (v_sku v) (show_nat (v_id v)) @ '';'' @ show_int (inventory_quantity m v)"

definition inventory_csvLines :: "(nat \<rightharpoonup> int) \<Rightarrow> product list \<Rightarrow> string list" where
  "inventory_csvLines m products =
     ''sku;quantity'' # concat (map (\<lambda>p. map (inventory_line m) (p_variants p)) products)"

definition syncInventory ::
  "env \<Rightarrow> product list response \<Rightarrow> (nat list \<Rightarrow> inventory_level list response) \<Rightarrow>
   (string \<Rightarrow> import_result response) \<Rightarrow> world \<Rightarrow> world \<times> sync_result" where
  \<comment> \<open>\<open>src/index.js\<close>, \<open>SyncManager.syncInventory\<close>\<close>
  "syncInventory e getProducts getInventoryLevels updateOffers w =
     (case getProducts of
        Throws err \<Rightarrow> (w, Failure (message err))
      | Resolves products \<Rightarrow>
          let inventoryItemIds = concat (map (\<lambda>p. map v_inventory_item_id (p_variants p)) products)
          in if inventoryItemIds = [] then (w, Success 0)
             else
               (case getInventoryLevels inventoryItemIds of
                  Throws err \<Rightarrow> (w, Failure (message err))
                | Resolves inventoryLevels \<Rightarrow>
                    let csvContent =
                          join [CHR 0x0A] (inventory_csvLines (inventoryMap inventoryLevels) products);
                        w1 = w\<lparr>offer_imports := offer_imports w @ [csvContent]\<rparr>
                    in (case updateOffers csvContent of
                          Throws err \<Rightarrow> (w1, Failure (message err))
                        | Resolves result \<Rightarrow>
                            (saveSyncState e
                               (w1\<lparr>syncState := (syncState w1)\<lparr>lastInventorySync := Some (now e)\<rparr>\<rparr>),
                             Import_response result))))"

definition inventoryMap_simplified :: "inventory_level list \<Rightarrow> (nat \<rightharpoonup> int)" where
  \<comment> \<open>\<open>part_000\<close>, \<open>syncInventory\<close>: \<open>Math.max(0, level.available || 0)\<close>\<close>
  "inventoryMap_simplified levels =
     fold (\<lambda>level m. m(l_inventory_item_id level \<mapsto> max 0 (or_zero (l_available level))))
       levels Map.empty"

definition offer_sku :: "variant \<Rightarrow> string" where
  \<comment> \<open>\<open>part_000\<close>, \<open>syncInventory\<close>: \<open>variant.sku || variant.barcode || `SHOPIFY-${variant.id}`\<close>\<close>
  "offer_sku v = or_str (v_sku v) (or_str (v_barcode v) (''SHOPIFY-'' @ show_nat (v_id v)))"

definition offer_quantity :: "(nat \<rightharpoonup> int) \<Rightarrow> variant \<Rightarrow> int" where
  \<comment> \<open>\<open>part_000\<close>, \<open>syncInventory\<close>: \<open>Math.max(0, inventoryMap[variant.inventory_item_id] || 0)\<close>\<close>
  "offer_quantity m v = max 0 (or_zero (m (v_inventory_item_id v)))"

definition offer_description :: "product \<Rightarrow> string" where
  \<comment> \<open>\<open>part_000\<close>, \<open>syncInventory\<close>: \<open>this.cleanDescription(product.body_html || product.title)\<close>\<close>
  "offer_description p =
     cleanDescription_simplified (if truthy (p_body_html p) then p_body_html p else p_title p)"

definition offer_fields :: "(nat \<rightharpoonup> int) \<Rightarrow> product \<Rightarrow> variant \<Rightarrow> string list" where
  \<comment> \<open>\<open>part_000\<close>, \<open>syncInventory\<close>: the array that is joined into one line\<close>
  "offer_fields m p v =
     [offer_sku v, offer_sku v, ''SHOP_SKU'', or_str (v_price v) ''0.00'',
      show_int (offer_quantity m v), ''11'', quoted (offer_description p), ''2'']"

definition offer_header :: string where
  "offer_header = ''sku;product-id;product-id-type;price;quantity;state;description;leadtime-to-ship''"

definition offer_csvLines :: "(nat \<rightharpoonup> int) \<Rightarrow> product list \<Rightarrow> string list" where
  "offer_csvLines m products =
     offer_header # concat (map (\<lambda>p. map (\<lambda>v. join '';'' (offer_fields m p v)) (p_variants p)) products)"

definition syncInventory_simplified ::
  "env \<Rightarrow> product list response \<Rightarrow> (nat list \<Rightarrow> inventory_level list response) \<Rightarrow>
   (string \<Rightarrow> import_result response) \<Rightarrow> world \<Rightarrow> world \<times> sync_result" where
  \<comment> \<open>\<open>src/unnamed/part_000\<close>, \<open>SyncManager.syncInventory\<close>\<close>
  "syncInventory_simplified e getProducts getInventoryLevels updateOffers w =
     (case getProducts of
        Throws err \<Rightarrow> (w, Failure (message err))
      | Resolves products \<Rightarrow>
          if products = [] then (w, Success 0)
          else
            let inventoryItemIds = concat (map (\<lambda>p. map v_inventory_item_id (p_variants p)) products)
            in (case getInventoryLevels inventoryItemIds of
                  Throws err \<Rightarrow> (w, Failure (message err))
                | Resolves inventoryLevels \<Rightarrow>
                    let csvContent =
                          join [CHR 0x0A]
                            (offer_csvLines (inventoryMap_simplified inventoryLevels) products);
                        w1 = w\<lparr>offer_imports := offer_imports w @ [csvContent]\<rparr>
                    in (case updateOffers csvContent of
                          Throws err \<Rightarrow> (w1, Failure (message err))
                        | Resolves result \<Rightarrow>
                            (saveSyncState e
                               (w1\<lparr>syncState := (syncState w1)\<lparr>lastInventorySync := Some (now e)\<rparr>\<rparr>),
                             Import_response result))))"

section \<open>Order routine\<close>

definition convertAddress :: "address option \<Rightarrow> shopify_address option" where
  "convertAddress a =
     (case a of
        None \<Rightarrow> None
      | Some address \<Rightarrow>
          Some \<lparr> sa_first_name = ad_firstname address, sa_last_name = ad_lastname address,
                 sa_address1 = ad_street_1 address, sa_address2 = ad_street_2 address,
                 sa_city = ad_city address, sa_province = ad_state address,
                 sa_country = ad_country_iso_code address, sa_zip = ad_zip_code address,
                 sa_phone = ad_phone address \<rparr>)"

definition customer_email :: "mirakl_order \<Rightarrow> string option" where
  \<comment> \<open>\<open>miraklOrder.customer?.email\<close>\<close>
  "customer_email mo = (case mo_customer mo of None \<Rightarrow> None | Some c \<Rightarrow> cu_email c)"

definition convertLine :: "order_line \<Rightarrow> line_item" where
  \<comment> \<open>the function mapped over \<open>miraklOrder.order_lines\<close>\<close>
  "convertLine l =
     \<lparr> li_title = or_str (case ol_offer l of None \<Rightarrow> None | Some f \<Rightarrow> of_product_title f) ''Product'',
       li_price = ol_price l,
       li_quantity = ol_quantity l,
       li_sku = (case ol_offer l of None \<Rightarrow> None | Some f \<Rightarrow> of_sku f) \<rparr>"

definition shopifyOrderData :: "mirakl_order \<Rightarrow> shopify_order_data" where
  \<comment> \<open>the object literal \<open>syncOrders\<close> hands to \<open>createOrder\<close>\<close>
  "shopifyOrderData mo =
     \<lparr> od_email = or_str (customer_email mo) ''noemail@mirakl.order'',
       od_line_items = map convertLine (mo_order_lines mo),
       od_shipping_address = convertAddress (mo_shipping_address mo),
       od_billing_address = convertAddress (mo_billing_address mo),
       od_financial_status = ''paid'',
       od_tags = ''Mirakl,Order-'' @ mo_order_id mo,
       od_note = ''Mirakl Order ID: '' @ mo_order_id mo \<rparr>"

fun syncOrders_loop ::
  "(shopify_order_data \<Rightarrow> shopify_order response) \<Rightarrow> mirakl_order list \<Rightarrow> world \<Rightarrow> nat \<Rightarrow>
   world \<times> nat response" where
  \<comment> \<open>the \<open>for\<close> loop of \<open>syncOrders\<close>, with \<open>createdCount\<close> as the last argument; a throw leaves
      the loop with the world as it is at that moment\<close>
  "syncOrders_loop createOrder [] w createdCount = (w, Resolves createdCount)"
| "syncOrders_loop createOrder (miraklOrder # orders) w createdCount =
     (if mo_order_id miraklOrder \<in> set (processedOrders (syncState w))
      then syncOrders_loop createOrder orders w createdCount
      else
        let w1 = w\<lparr>createOrder_calls := createOrder_calls w @ [shopifyOrderData miraklOrder]\<rparr>
        in (case createOrder (shopifyOrderData miraklOrder) of
              Throws err \<Rightarrow> (w1, Throws err)
            | Resolves shopifyOrder \<Rightarrow>
                syncOrders_loop createOrder orders
                  (w1\<lparr>syncState := (syncState w1)\<lparr>processedOrders :=
                        processedOrders (syncState w1) @ [mo_order_id miraklOrder]\<rparr>\<rparr>)
                  (Suc createdCount)))"

definition syncOrders ::
  "env \<Rightarrow> (string option \<Rightarrow> mirakl_order list response) \<Rightarrow>
   (shopify_order_data \<Rightarrow> shopify_order response) \<Rightarrow> world \<Rightarrow> world \<times> sync_result" where
  \<comment> \<open>\<open>SyncManager.syncOrders\<close>, the same text in both files\<close>
  "syncOrders e getOrders createOrder w =
     (case getOrders (lastOrderSync (syncState w)) of
        Throws err \<Rightarrow> (w, Failure (message err))
      | Resolves orders \<Rightarrow>
          if orders = [] then (w, Success 0)
          else
            (case syncOrders_loop createOrder orders w 0 of
               (w1, Throws err) \<Rightarrow> (w1, Failure (message err))
             | (w1, Resolves createdCount) \<Rightarrow>
                 (saveSyncState e (w1\<lparr>syncState := (syncState w1)\<lparr>lastOrderSync := Some (now e)\<rparr>\<rparr>),
                  Success createdCount)))"

section \<open>Tracking routine\<close>

definition is_space :: "char \<Rightarrow> bool" where
  \<comment> \<open>the class \<open>\s\<close> on code units below 256: tab, line feed, vertical tab, form feed,
      carriage return, space and no-break space\<close>
  "is_space c = (c \<in> {CHR 0x09, CHR 0x0A, CHR 0x0B, CHR 0x0C, CHR 0x0D, CHR 0x20, CHR 0xA0})"

fun regex_capture :: "string \<Rightarrow> (char \<Rightarrow> bool) \<Rightarrow> string \<Rightarrow> string option" where
  \<comment> \<open>\<open>s.match(/LIT(CLS+)/)\<close> for a non-empty literal \<open>LIT\<close> and a character class \<open>CLS\<close>: the
      first position where the literal stands in front of at least one character of the class;
      the group is the longest run of such characters there. \<open>None\<close> is \<open>null\<close>.\<close>
  "regex_capture lit cls [] = None"
| "regex_capture lit cls (c # cs) =
     (if prefix lit (c # cs) \<and> takeWhile cls (drop (length lit) (c # cs)) \<noteq> []
      then Some (takeWhile cls (drop (length lit) (c # cs)))
      else regex_capture lit cls cs)"

definition note_match :: "shopify_order \<Rightarrow> string option" where
  \<comment> \<open>\<open>shopifyOrder.note.match(/Mirakl Order ID: ([^\s]+)/)\<close> behind the guard \<open>if (shopifyOrder.note)\<close>\<close>
  "note_match so =
     (case so_note so of
        None \<Rightarrow> None
      | Some n \<Rightarrow> if n = [] then None else regex_capture ''Mirakl Order ID: '' (\<lambda>c. \<not> is_space c) n)"

definition tags_match :: "shopify_order \<Rightarrow> string option" where
  \<comment> \<open>\<open>shopifyOrder.tags.match(/Order-([^\s,]+)/)\<close> behind the guard \<open>if (shopifyOrder.tags)\<close>\<close>
  "tags_match so =
     (case so_tags so of
        None \<Rightarrow> None
      | Some t \<Rightarrow>
          if t = [] then None
          else regex_capture ''Order-'' (\<lambda>c. \<not> is_space c \<and> c \<noteq> CHR '','') t)"

definition extractMiraklOrderId :: "shopify_order \<Rightarrow> string option" where
  "extractMiraklOrderId so = (case note_match so of Some m \<Rightarrow> Some m | None \<Rightarrow> tags_match so)"

fun updateTracking_loop ::
  "(string \<Rightarrow> tracking_info \<Rightarrow> unit response) \<Rightarrow> string \<Rightarrow> fulfillment list \<Rightarrow> world \<Rightarrow> nat \<Rightarrow>
   world \<times> nat response" where
  \<comment> \<open>the inner \<open>for\<close> loop of \<open>syncTracking\<close>, over the fulfillments of one order\<close>
  "updateTracking_loop updateTracking miraklOrderId [] w updatedCount = (w, Resolves updatedCount)"
| "updateTracking_loop updateTracking miraklOrderId (f # fs) w updatedCount =
     (if truthy (f_tracking_number f) then
        let info = \<lparr> ti_carrier_code = or_str (f_tracking_company f) ''OTHER'',
                     ti_tracking_number = opt_str (f_tracking_number f),
                     ti_tracking_url = f_tracking_url f \<rparr>;
            w1 = w\<lparr>updateTracking_calls := updateTracking_calls w @ [(miraklOrderId, info)]\<rparr>
        in (case updateTracking miraklOrderId info of
              Throws err \<Rightarrow> (w1, Throws err)
            | Resolves _ \<Rightarrow> updateTracking_loop updateTracking miraklOrderId fs w1 (Suc updatedCount))
      else updateTracking_loop updateTracking miraklOrderId fs w updatedCount)"

fun syncTracking_loop ::
  "(nat \<Rightarrow> fulfillment list response) \<Rightarrow> (string \<Rightarrow> tracking_info \<Rightarrow> unit response) \<Rightarrow>
   shopify_order list \<Rightarrow> world \<Rightarrow> nat \<Rightarrow> world \<times> nat response" where
  \<comment> \<open>the outer \<open>for\<close> loop of \<open>syncTracking\<close>\<close>
  "syncTracking_loop getFulfillments updateTracking [] w updatedCount = (w, Resolves updatedCount)"
| "syncTracking_loop getFulfillments updateTracking (order # orders) w updatedCount =
     (case extractMiraklOrderId order of
        None \<Rightarrow> syncTracking_loop getFulfillments updateTracking orders w updatedCount
      | Some miraklOrderId \<Rightarrow>
          let w1 = w\<lparr>getFulfillments_calls := getFulfillments_calls w @ [so_id order]\<rparr>
          in (case getFulfillments (so_id order) of
                Throws err \<Rightarrow> (w1, Throws err)
              | Resolves fulfillments \<Rightarrow>
                  (case updateTracking_loop updateTracking miraklOrderId fulfillments w1 updatedCount of
                     (w2, Throws err) \<Rightarrow> (w2, Throws err)
                   | (w2, Resolves n) \<Rightarrow>
                       syncTracking_loop getFulfillments updateTracking orders w2 n)))"

definition is_fulfilled_mirakl_order :: "shopify_order \<Rightarrow> bool" where
  \<comment> \<open>\<open>o.tags && o.tags.includes('Mirakl') && o.fulfillment_status === 'fulfilled'\<close>\<close>
  "is_fulfilled_mirakl_order so =
     (truthy (so_tags so) \<and> includes_str ''Mirakl'' (opt_str (so_tags so)) \<and>
      so_fulfillment_status so = Some ''fulfilled'')"

definition syncTracking ::
  "env \<Rightarrow> shopify_order list response \<Rightarrow> (nat \<Rightarrow> fulfillment list response) \<Rightarrow>
   (string \<Rightarrow> tracking_info \<Rightarrow> unit response) \<Rightarrow> world \<Rightarrow> world \<times> sync_result" where
  \<comment> \<open>\<open>src/index.js\<close>, \<open>SyncManager.syncTracking\<close>\<close>
  "syncTracking e getOrdersSince getFulfillments updateTracking w =
     (case getOrdersSince of
        Throws err \<Rightarrow> (w, Failure (message err))
      | Resolves orders \<Rightarrow>
          let miraklOrders = filter is_fulfilled_mirakl_order orders
          in if miraklOrders = [] then (w, Success 0)
             else
               (case syncTracking_loop getFulfillments updateTracking miraklOrders w 0 of
                  (w1, Throws err) \<Rightarrow> (w1, Failure (message err))
                | (w1, Resolves updatedCount) \<Rightarrow>
                    (saveSyncState e
                       (w1\<lparr>syncState := (syncState w1)\<lparr>lastTrackingSync := Some (now e)\<rparr>\<rparr>),
                     Success updatedCount)))"

section \<open>Predicates used in the statements\<close>

definition read_nat :: "string \<Rightarrow> nat" where
  \<comment> \<open>the number a string of decimal digits denotes\<close>
  "read_nat s = foldl (\<lambda>a c. 10 * a + (of_char c - 48)) 0 s"

fun has_tag :: "string \<Rightarrow> bool" where
  \<comment> \<open>the pattern \<open><[^>]*>\<close> matches somewhere in the string: a \<open><\<close> with a \<open>>\<close> after it\<close>
  "has_tag [] = False"
| "has_tag (c # cs) = ((c = CHR ''<'' \<and> CHR ''>'' \<in> set cs) \<or> has_tag cs)"

fun split_on :: "char \<Rightarrow> string \<Rightarrow> string list" where
  \<comment> \<open>the pieces of a text between the occurrences of a separator\<close>
  "split_on sep [] = [[]]"
| "split_on sep (c # cs) =
     (if c = sep then [] # split_on sep cs
      else (case split_on sep cs of [] \<Rightarrow> [[c]] | l # ls \<Rightarrow> (c # l) # ls))"

definition variants_in_order :: "product list \<Rightarrow> (product \<times> variant) list" where
  \<comment> \<open>every variant with its product: products in fetch order, the variants of each in theirs\<close>
  "variants_in_order products = concat (map (\<lambda>p. map (Pair p) (p_variants p)) products)"

definition csv_payload :: "string \<Rightarrow> ('a \<Rightarrow> string) \<Rightarrow> 'a list \<Rightarrow> string" where
  \<comment> \<open>a header line, then one line per item, separated by line feeds\<close>
  "csv_payload header line xs = join [CHR 0x0A] (header # map line xs)"

section \<open>Example data\<close>

text \<open>
  Gateways and records for the concrete runs below: \<open>always r\<close> is a gateway method that
  answers every call with \<open>r\<close>.
\<close>

definition always :: "'b \<Rightarrow> 'a \<Rightarrow> 'b" where
  "always r x = r"

definition example_env :: env where
  "example_env = \<lparr> now = ''2024-05-01T10:00:00.000Z'',
                     stringify = (\<lambda>s. join '','' (processedOrders s)),
                     write_error = None \<rparr>"

definition example_world :: "string list \<Rightarrow> world" where
  "example_world processed =
     \<lparr> syncState = zero_state\<lparr>processedOrders := processed\<rparr>, disk = Missing,
       offer_imports = [], createOrder_calls = [], getFulfillments_calls = [],
       updateTracking_calls = [] \<rparr>"

definition example_order :: "string \<Rightarrow> string option \<Rightarrow> mirakl_order" where
  "example_order i em =
     \<lparr> mo_order_id = i, mo_customer = Some \<lparr> cu_email = em \<rparr>, mo_order_lines = [],
       mo_shipping_address = None, mo_billing_address = None \<rparr>"

definition example_createOrder_rejecting :: "string \<Rightarrow> shopify_order_data \<Rightarrow> shopify_order response" where
  "example_createOrder_rejecting i d =
     (if od_note d = ''Mirakl Order ID: '' @ i then Throws (Error ''Unprocessable Entity'')
      else Resolves \<lparr> so_id = 1, so_order_number = 1001, so_tags = Some (od_tags d),
                      so_note = Some (od_note d), so_fulfillment_status = None \<rparr>)"

definition example_created :: shopify_order where
  "example_created =
     \<lparr> so_id = 1, so_order_number = 1001, so_tags = None, so_note = None,
       so_fulfillment_status = None \<rparr>"

definition example_stored :: "shopify_order_data \<Rightarrow> shopify_order" where
  "example_stored d =
     \<lparr> so_id = 1, so_order_number = 1001, so_tags = Some (od_tags d), so_note = Some (od_note d),
       so_fulfillment_status = Some ''fulfilled'' \<rparr>"

definition example_file :: string where
  \<open>example_file = ''{"processedOrders":["A"]}''\<close>

definition example_parse :: "string \<Rightarrow> sync_state response" where
  "example_parse txt =
     (if txt = example_file then Resolves (zero_state\<lparr>processedOrders := [''A'']\<rparr>)
      else Throws (Error ''Unexpected end of JSON input''))"

definition example_variant :: "nat \<Rightarrow> string option \<Rightarrow> string option \<Rightarrow> variant" where
  "example_variant i s b =
     \<lparr> v_id = i, v_sku = s, v_barcode = b, v_price = Some ''10.00'', v_inventory_item_id = 1,
       v_inventory_quantity = Some 3 \<rparr>"

definition example_product :: "variant list \<Rightarrow> product" where
  "example_product vs =
     \<lparr> p_title = Some ''Mug'', p_body_html = Some ''<p>Nice mug</p>'', p_variants = vs \<rparr>"

section \<open>Numbers as text: proofs\<close>

text \<open>
  \<open>show_nat\<close> writes a number so that reading the digits back gives the number.
\<close>

lemma read_nat_snoc: "read_nat (s @ [c]) = 10 * read_nat s + (of_char c - 48)"
  by (simp add: read_nat_def)

lemma of_char_digit: "d < 10 \<Longrightarrow> of_char (digit_char d) - 48 = d"
  by (simp add: digit_char_def)

lemma read_show_nat: "read_nat (show_nat n) = n"
proof (induction n rule: show_nat.induct)
  case (1 n)
  show ?case
  proof (cases "n < 10")
    case True
    then have "show_nat n = [digit_char n]"
      by (simp add: show_nat.simps)
    with True show ?thesis
      using read_nat_snoc [of "[]" "digit_char n"] by (simp add: of_char_digit read_nat_def)
  next
    case False
    then have "show_nat n = show_nat (n div 10) @ [digit_char (n mod 10)]"
      by (subst show_nat.simps) simp
    with 1 [OF False] show ?thesis
      by (simp add: read_nat_snoc of_char_digit)
  qed
qed

section \<open>Description sanitisation: proofs\<close>

lemma dropWhile_Cons_hd: "dropWhile P xs = y # ys \<Longrightarrow> \<not> P y \<and> y \<in> set xs \<and> set ys \<subseteq> set xs"
proof -
  assume h: "dropWhile P xs = y # ys"
  have "set (dropWhile P xs) \<subseteq> set xs"
    by (auto dest: set_dropWhileD)
  then have "y \<in> set xs" and "set ys \<subseteq> set xs"
    by (simp_all add: h)
  moreover have "\<not> P y" using h hd_dropWhile [of P xs] by auto
  ultimately show ?thesis by simp
qed

lemma set_strip_tags: "set (strip_tags s) \<subseteq> set s"
proof (induction s rule: strip_tags.induct)
  case 1
  then show ?case by simp
next
  case (2 c cs)
  show ?case
  proof (cases "c = CHR ''<''")
    case False
    then have "strip_tags (c # cs) = c # strip_tags cs" by simp
    with 2(3) [OF False] show ?thesis by auto
  next
    case True
    show ?thesis
    proof (cases "dropWhile (\<lambda>d. d \<noteq> CHR ''>'') cs")
      case Nil
      have "strip_tags (c # cs) = c # strip_tags cs"
        using True by (simp add: Nil)
      with 2(1) [OF True Nil] show ?thesis by auto
    next
      case (Cons x rest)
      have eq: "strip_tags (c # cs) = strip_tags rest"
        using True by (simp add: Cons)
      have "set rest \<subseteq> set cs"
        using dropWhile_Cons_hd [OF Cons] by simp
      with 2(2) [OF True Cons] show ?thesis
        unfolding eq by auto
    qed
  qed
qed

lemma has_tag_no_gt: "CHR ''>'' \<notin> set s \<Longrightarrow> \<not> has_tag s"
  by (induction s) simp_all

lemma strip_tags_no_tag: "\<not> has_tag (strip_tags s)"
proof (induction s rule: strip_tags.induct)
  case 1
  then show ?case by simp
next
  case (2 c cs)
  show ?case
  proof (cases "c = CHR ''<''")
    case False
    then have "strip_tags (c # cs) = c # strip_tags cs" by simp
    with 2(3) [OF False] False show ?thesis by simp
  next
    case True
    show ?thesis
    proof (cases "dropWhile (\<lambda>d. d \<noteq> CHR ''>'') cs")
      case Nil
      then have "CHR ''>'' \<notin> set cs"
        by auto
      then have "CHR ''>'' \<notin> set (strip_tags cs)"
        using set_strip_tags by blast
      moreover have "strip_tags (c # cs) = c # strip_tags cs"
        using True by (simp add: Nil)
      moreover have "\<not> has_tag (strip_tags cs)"
        using 2(1) [OF True Nil] .
      ultimately show ?thesis by simp
    next
      case (Cons x rest)
      have eq: "strip_tags (c # cs) = strip_tags rest"
        using True by (simp add: Cons)
      show ?thesis
        unfolding eq using 2(2) [OF True Cons] .
    qed
  qed
qed

lemma strip_tags_id: "\<not> has_tag s \<Longrightarrow> strip_tags s = s"
proof (induction s)
  case Nil
  then show ?case by simp
next
  case (Cons c cs)
  then have ih: "strip_tags cs = cs" by simp
  show ?case
  proof (cases "c = CHR ''<''")
    case False
    with ih show ?thesis by simp
  next
    case True
    with Cons.prems have "CHR ''>'' \<notin> set cs" by simp
    then have dw: "dropWhile (\<lambda>d. d \<noteq> CHR ''>'') cs = []"
      by auto
    show ?thesis
      using True ih by (simp add: dw)
  qed
qed

lemma length_double_quotes:
  "length (double_quotes s) = length s + length (filter (\<lambda>c. c = CHR 0x22) s)"
  by (induction s) (simp_all add: double_quotes_def)

text \<open>
  C7, description sanitisation. For a non-empty input string \<open>cleanDescription\<close> removes the
  tags, then doubles every double quote, then keeps the first 500 code units (200 in the
  simplified application), and no tag is left behind by the first step. The empty string and
  an absent value do not go through these steps: they give the empty string in \<open>index.js\<close>
  and the text \<open>Product description\<close> in the simplified application.
\<close>

theorem cleanDescription_pipeline:
  \<open>(s \<noteq> [] \<longrightarrow>
      cleanDescription (Some s) = take 500 (double_quotes (strip_tags s)) \<and>
      cleanDescription_simplified (Some s) = take 200 (double_quotes (strip_tags s))) \<and>
    \<not> has_tag (strip_tags s) \<and>
    cleanDescription (Some []) = [] \<and> cleanDescription None = [] \<and>
    cleanDescription_simplified (Some []) = ''Product description'' \<and>
    cleanDescription_simplified None = ''Product description''\<close>
  by (simp add: cleanDescription_def cleanDescription_simplified_def strip_tags_no_tag)

theorem cleanDescription_pipeline_witness:
  \<open>cleanDescription (Some ''<p>Nice "item"</p>'') = ''Nice ""item""'' \<and>
    cleanDescription_simplified (Some ''<p>Nice "item"</p>'') = ''Nice ""item""''\<close>
  using cleanDescription_pipeline [of \<open>''<p>Nice "item"</p>''\<close>]
  by (simp add: double_quotes_def)

text \<open>
  In the simplified application the empty input does not yield what the three steps would
  yield on it (the empty string).
\<close>

theorem cleanDescription_empty_counterexample:
  "cleanDescription_simplified (Some []) \<noteq> take 200 (double_quotes (strip_tags []))"
  by (simp add: cleanDescription_simplified_def double_quotes_def)

section \<open>Order routine: proofs\<close>

lemmas example_defs =
  always_def example_createOrder_rejecting_def example_env_def example_world_def example_order_def example_created_def
  zero_state_def syncOrders_def shopifyOrderData_def saveSyncState_def customer_email_def
  convertAddress_def or_str_def Let_def

lemma syncOrders_loop_frame:
  "syncOrders_loop c os w n = (w', r) \<Longrightarrow>
     disk w' = disk w \<and> offer_imports w' = offer_imports w \<and>
     getFulfillments_calls w' = getFulfillments_calls w \<and>
     updateTracking_calls w' = updateTracking_calls w \<and>
     lastProductSync (syncState w') = lastProductSync (syncState w) \<and>
     lastInventorySync (syncState w') = lastInventorySync (syncState w) \<and>
     lastOrderSync (syncState w') = lastOrderSync (syncState w) \<and>
     lastTrackingSync (syncState w') = lastTrackingSync (syncState w)"
proof (induction os arbitrary: w n)
  case Nil
  then show ?case by simp
next
  case (Cons mo os)
  show ?case
  proof (cases "mo_order_id mo \<in> set (processedOrders (syncState w))")
    case True
    with Cons.prems have "syncOrders_loop c os w n = (w', r)" by simp
    then show ?thesis by (rule Cons.IH)
  next
    case False
    show ?thesis
    proof (cases "c (shopifyOrderData mo)")
      case (Throws err)
      with False Cons.prems show ?thesis by (auto simp: Let_def)
    next
      case (Resolves so)
      with False Cons.prems show ?thesis
        by (auto simp: Let_def dest!: Cons.IH)
    qed
  qed
qed

lemma syncOrders_loop_processed:
  "syncOrders_loop c os w n = (w', r) \<Longrightarrow>
     \<exists>added. processedOrders (syncState w') = processedOrders (syncState w) @ added \<and>
       distinct added \<and> set added \<inter> set (processedOrders (syncState w)) = {} \<and>
       set added \<subseteq> mo_order_id ` set os"
proof (induction os arbitrary: w n)
  case Nil
  then show ?case by simp
next
  case (Cons mo os)
  show ?case
  proof (cases "mo_order_id mo \<in> set (processedOrders (syncState w))")
    case True
    with Cons.prems have "syncOrders_loop c os w n = (w', r)" by simp
    from Cons.IH [OF this] show ?thesis by auto
  next
    case False
    show ?thesis
    proof (cases "c (shopifyOrderData mo)")
      case (Throws err)
      with False Cons.prems show ?thesis by (auto simp: Let_def)
    next
      case (Resolves so)
      define w2 where "w2 = w\<lparr>createOrder_calls := createOrder_calls w @ [shopifyOrderData mo],
          syncState := (syncState w)\<lparr>processedOrders := processedOrders (syncState w) @ [mo_order_id mo]\<rparr>\<rparr>"
      from False Resolves Cons.prems have "syncOrders_loop c os w2 (Suc n) = (w', r)"
        by (simp add: Let_def w2_def)
      from Cons.IH [OF this] obtain added where
        a: "processedOrders (syncState w') = processedOrders (syncState w2) @ added"
        and b: "distinct added"
        and c: "set added \<inter> set (processedOrders (syncState w2)) = {}"
        and d: "set added \<subseteq> mo_order_id ` set os"
        by blast
      have p2: "processedOrders (syncState w2) = processedOrders (syncState w) @ [mo_order_id mo]"
        by (simp add: w2_def)
      have "processedOrders (syncState w') = processedOrders (syncState w) @ (mo_order_id mo # added)"
        using a p2 by simp
      moreover have "distinct (mo_order_id mo # added)"
        using b c p2 by auto
      moreover have "set (mo_order_id mo # added) \<inter> set (processedOrders (syncState w)) = {}"
        using c p2 False by auto
      moreover have "set (mo_order_id mo # added) \<subseteq> mo_order_id ` set (mo # os)"
        using d by auto
      ultimately show ?thesis by blast
    qed
  qed
qed

lemma syncOrders_loop_calls:
  "syncOrders_loop c os w n = (w', r) \<Longrightarrow>
     \<exists>new. createOrder_calls w' = createOrder_calls w @ new \<and>
       set new \<subseteq> shopifyOrderData ` set os \<and>
       (\<forall>d\<in>set (butlast new). \<exists>so. c d = Resolves so) \<and>
       (case r of
          Throws err \<Rightarrow> new \<noteq> [] \<and> c (last new) = Throws err
        | Resolves k \<Rightarrow> (\<forall>d\<in>set new. \<exists>so. c d = Resolves so) \<and> k = n + length new)"
proof (induction os arbitrary: w n)
  case Nil
  then show ?case by auto
next
  case (Cons mo os)
  show ?case
  proof (cases "mo_order_id mo \<in> set (processedOrders (syncState w))")
    case True
    with Cons.prems have "syncOrders_loop c os w n = (w', r)" by simp
    from Cons.IH [OF this] obtain new where
      "createOrder_calls w' = createOrder_calls w @ new"
      "set new \<subseteq> shopifyOrderData ` set os"
      "\<forall>d\<in>set (butlast new). \<exists>so. c d = Resolves so"
      "case r of
          Throws err \<Rightarrow> new \<noteq> [] \<and> c (last new) = Throws err
        | Resolves k \<Rightarrow> (\<forall>d\<in>set new. \<exists>so. c d = Resolves so) \<and> k = n + length new"
      by blast
    then show ?thesis
      by (intro exI [of _ new]) auto
  next
    case False
    show ?thesis
    proof (cases "c (shopifyOrderData mo)")
      case (Throws err)
      with False Cons.prems
      have "w' = w\<lparr>createOrder_calls := createOrder_calls w @ [shopifyOrderData mo]\<rparr>"
        and "r = Throws err"
        by (auto simp: Let_def)
      with Throws show ?thesis
        by (intro exI [of _ "[shopifyOrderData mo]"]) simp
    next
      case (Resolves so)
      define w2 where "w2 = w\<lparr>createOrder_calls := createOrder_calls w @ [shopifyOrderData mo],
          syncState := (syncState w)\<lparr>processedOrders := processedOrders (syncState w) @ [mo_order_id mo]\<rparr>\<rparr>"
      from False Resolves Cons.prems have "syncOrders_loop c os w2 (Suc n) = (w', r)"
        by (simp add: Let_def w2_def)
      from Cons.IH [OF this] obtain new where
        a: "createOrder_calls w' = createOrder_calls w2 @ new"
        and b: "set new \<subseteq> shopifyOrderData ` set os"
        and bl: "\<forall>d\<in>set (butlast new). \<exists>so. c d = Resolves so"
        and cr: "case r of
          Throws err \<Rightarrow> new \<noteq> [] \<and> c (last new) = Throws err
        | Resolves k \<Rightarrow> (\<forall>d\<in>set new. \<exists>so. c d = Resolves so) \<and> k = Suc n + length new"
        by blast
      have c2: "createOrder_calls w2 = createOrder_calls w @ [shopifyOrderData mo]"
        by (simp add: w2_def)
      let ?new = "shopifyOrderData mo # new"
      have "createOrder_calls w' = createOrder_calls w @ ?new"
        using a c2 by simp
      moreover have "set ?new \<subseteq> shopifyOrderData ` set (mo # os)"
        using b by auto
      moreover have "\<forall>d\<in>set (butlast ?new). \<exists>so. c d = Resolves so"
        using bl Resolves by auto
      moreover have "case r of
          Throws err \<Rightarrow> ?new \<noteq> [] \<and> c (last ?new) = Throws err
        | Resolves k \<Rightarrow> (\<forall>d\<in>set ?new. \<exists>so. c d = Resolves so) \<and> k = n + length ?new"
        using cr Resolves by (auto split: response.splits)
      ultimately show ?thesis by blast
    qed
  qed
qed

lemma syncOrders_loop_skip:
  "mo_order_id ` set os \<subseteq> set (processedOrders (syncState w)) \<Longrightarrow>
     syncOrders_loop c os w n = (w, Resolves n)"
  by (induction os) auto

lemma syncOrders_loop_resolving:
  "\<forall>mo\<in>set os. \<exists>so. c (shopifyOrderData mo) = Resolves so \<Longrightarrow>
   syncOrders_loop c os w n = (w', r) \<Longrightarrow>
     \<exists>first. r = Resolves (n + length first) \<and> subseq first os \<and>
       createOrder_calls w' = createOrder_calls w @ map shopifyOrderData first \<and>
       processedOrders (syncState w') = processedOrders (syncState w) @ map mo_order_id first \<and>
       distinct (map mo_order_id first) \<and>
       set (map mo_order_id first) = mo_order_id ` set os - set (processedOrders (syncState w))"
proof (induction os arbitrary: w n)
  case Nil
  then show ?case by auto
next
  case (Cons mo os)
  from Cons.prems(1) have all: "\<forall>mo\<in>set os. \<exists>so. c (shopifyOrderData mo) = Resolves so"
    by simp
  show ?case
  proof (cases "mo_order_id mo \<in> set (processedOrders (syncState w))")
    case True
    with Cons.prems have "syncOrders_loop c os w n = (w', r)" by simp
    from Cons.IH [OF all this] obtain first where
      f: "r = Resolves (n + length first)" "subseq first os"
        "createOrder_calls w' = createOrder_calls w @ map shopifyOrderData first"
        "processedOrders (syncState w') = processedOrders (syncState w) @ map mo_order_id first"
        "distinct (map mo_order_id first)"
        "set (map mo_order_id first) = mo_order_id ` set os - set (processedOrders (syncState w))"
      by blast
    have "subseq first (mo # os)"
      using f(2) by (rule list_emb_Cons)
    moreover have "set (map mo_order_id first) =
        mo_order_id ` set (mo # os) - set (processedOrders (syncState w))"
      using f(6) True by auto
    ultimately show ?thesis
      using f(1,3,4,5) by blast
  next
    case False
    from Cons.prems(1) obtain so where so: "c (shopifyOrderData mo) = Resolves so"
      by auto
    define w2 where "w2 = w\<lparr>createOrder_calls := createOrder_calls w @ [shopifyOrderData mo],
        syncState := (syncState w)\<lparr>processedOrders := processedOrders (syncState w) @ [mo_order_id mo]\<rparr>\<rparr>"
    from False so Cons.prems(2) have "syncOrders_loop c os w2 (Suc n) = (w', r)"
      by (simp add: Let_def w2_def)
    from Cons.IH [OF all this] obtain first where
      f: "r = Resolves (Suc n + length first)" "subseq first os"
        "createOrder_calls w' = createOrder_calls w2 @ map shopifyOrderData first"
        "processedOrders (syncState w') = processedOrders (syncState w2) @ map mo_order_id first"
        "distinct (map mo_order_id first)"
        "set (map mo_order_id first) = mo_order_id ` set os - set (processedOrders (syncState w2))"
      by blast
    have p2: "processedOrders (syncState w2) = processedOrders (syncState w) @ [mo_order_id mo]"
      and c2: "createOrder_calls w2 = createOrder_calls w @ [shopifyOrderData mo]"
      by (simp_all add: w2_def)
    let ?first = "mo # first"
    have "r = Resolves (n + length ?first)"
      using f(1) by simp
    moreover have "subseq ?first (mo # os)"
      using f(2) by simp
    moreover have "createOrder_calls w' = createOrder_calls w @ map shopifyOrderData ?first"
      using f(3) c2 by simp
    moreover have "processedOrders (syncState w') =
        processedOrders (syncState w) @ map mo_order_id ?first"
      using f(4) p2 by simp
    moreover have "distinct (map mo_order_id ?first)"
      using f(5,6) p2 by auto
    moreover have "set (map mo_order_id ?first) =
        mo_order_id ` set (mo # os) - set (processedOrders (syncState w))"
      using f(6) p2 False by auto
    ultimately show ?thesis by blast
  qed
qed

lemma saveSyncState_fields [simp]:
  "syncState (saveSyncState e w) = syncState w"
  "createOrder_calls (saveSyncState e w) = createOrder_calls w"
  "offer_imports (saveSyncState e w) = offer_imports w"
  "getFulfillments_calls (saveSyncState e w) = getFulfillments_calls w"
  "updateTracking_calls (saveSyncState e w) = updateTracking_calls w"
  by (simp_all add: saveSyncState_def split: option.splits)

lemma syncOrders_cases:
  assumes "syncOrders e g c w = (w', r)"
  obtains
    (fetch_throws) err where "g (lastOrderSync (syncState w)) = Throws err"
      "w' = w" "r = Failure (message err)"
  | (no_orders) "g (lastOrderSync (syncState w)) = Resolves []" "w' = w" "r = Success 0"
  | (loop_throws) orders err where "g (lastOrderSync (syncState w)) = Resolves orders"
      "orders \<noteq> []" "syncOrders_loop c orders w 0 = (w', Throws err)" "r = Failure (message err)"
  | (loop_done) orders w1 k where "g (lastOrderSync (syncState w)) = Resolves orders"
      "orders \<noteq> []" "syncOrders_loop c orders w 0 = (w1, Resolves k)"
      "w' = saveSyncState e (w1\<lparr>syncState := (syncState w1)\<lparr>lastOrderSync := Some (now e)\<rparr>\<rparr>)"
      "r = Success k"
  using assms
  by (auto simp: syncOrders_def split: response.splits if_splits prod.splits)

text \<open>
  C1, order-sync idempotence. Two runs of \<open>syncOrders\<close> fetch the same list of marketplace
  orders, and in the first run \<open>createOrder\<close> resolves for each of them. Then the first run
  submits one draft for each identifier of the list that was not yet in \<open>processedOrders\<close>,
  in fetch order and once only, however often the identifier occurs in the list; afterwards
  every identifier of the list is in \<open>processedOrders\<close>. The second run skips every order:
  it calls \<open>createOrder\<close> for none, leaves \<open>processedOrders\<close> as it is and reports zero
  created orders.
\<close>

theorem syncOrders_twice:
  assumes fetch: "getOrders (lastOrderSync (syncState w)) = Resolves orders"
    and ok: "\<forall>mo\<in>set orders. \<exists>so. createOrder (shopifyOrderData mo) = Resolves so"
    and first_run: "syncOrders e getOrders createOrder w = (w', r')"
    and fetch': "getOrders' (lastOrderSync (syncState w')) = Resolves orders"
    and second_run: "syncOrders e' getOrders' createOrder' w' = (w'', r'')"
  shows "\<exists>first. subseq first orders \<and>
           createOrder_calls w' = createOrder_calls w @ map shopifyOrderData first \<and>
           distinct (map mo_order_id first) \<and>
           set (map mo_order_id first) = mo_order_id ` set orders - set (processedOrders (syncState w)) \<and>
           r' = Success (length first) \<and>
           mo_order_id ` set orders \<subseteq> set (processedOrders (syncState w')) \<and>
           createOrder_calls w'' = createOrder_calls w' \<and>
           processedOrders (syncState w'') = processedOrders (syncState w') \<and>
           r'' = Success 0"
proof -
  have first: "\<exists>first. subseq first orders \<and>
           createOrder_calls w' = createOrder_calls w @ map shopifyOrderData first \<and>
           processedOrders (syncState w') = processedOrders (syncState w) @ map mo_order_id first \<and>
           distinct (map mo_order_id first) \<and>
           set (map mo_order_id first) = mo_order_id ` set orders - set (processedOrders (syncState w)) \<and>
           r' = Success (length first)"
    using first_run
  proof (cases rule: syncOrders_cases)
    case (fetch_throws err)
    with fetch show ?thesis by simp
  next
    case no_orders
    with fetch show ?thesis by auto
  next
    case (loop_throws os err)
    with fetch have "syncOrders_loop createOrder orders w 0 = (w', Throws err)" by simp
    from syncOrders_loop_resolving [OF ok this] show ?thesis by simp
  next
    case (loop_done os wl k)
    with fetch have l: "syncOrders_loop createOrder orders w 0 = (wl, Resolves k)" by simp
    from syncOrders_loop_resolving [OF ok l] show ?thesis
      unfolding loop_done(4,5) by auto
  qed
  then obtain first where f: "subseq first orders"
      "createOrder_calls w' = createOrder_calls w @ map shopifyOrderData first"
      "processedOrders (syncState w') = processedOrders (syncState w) @ map mo_order_id first"
      "distinct (map mo_order_id first)"
      "set (map mo_order_id first) = mo_order_id ` set orders - set (processedOrders (syncState w))"
      "r' = Success (length first)"
    by blast
  have all: "mo_order_id ` set orders \<subseteq> set (processedOrders (syncState w'))"
    using f(3,5) by auto
  have second: "createOrder_calls w'' = createOrder_calls w' \<and>
      processedOrders (syncState w'') = processedOrders (syncState w') \<and> r'' = Success 0"
    using second_run
  proof (cases rule: syncOrders_cases)
    case (fetch_throws err)
    with fetch' show ?thesis by simp
  next
    case no_orders
    then show ?thesis by simp
  next
    case (loop_throws os err)
    with fetch' have "syncOrders_loop createOrder' orders w' 0 = (w'', Throws err)" by simp
    with syncOrders_loop_skip [OF all, of createOrder' 0] show ?thesis by simp
  next
    case (loop_done os wl k)
    with fetch' have "syncOrders_loop createOrder' orders w' 0 = (wl, Resolves k)" by simp
    with syncOrders_loop_skip [OF all, of createOrder' 0] have "wl = w'" "k = 0" by simp_all
    with loop_done(4,5) show ?thesis by simp
  qed
  from f all second show ?thesis by blast
qed

theorem syncOrders_twice_witness:
  "createOrder_calls (fst (syncOrders example_env
       (always (Resolves [example_order ''A'' None, example_order ''B'' None, example_order ''A'' None]))
       (always (Resolves example_created))
       (fst (syncOrders example_env
          (always (Resolves [example_order ''A'' None, example_order ''B'' None, example_order ''A'' None]))
          (always (Resolves example_created)) (example_world []))))) =
     [shopifyOrderData (example_order ''A'' None), shopifyOrderData (example_order ''B'' None)] \<and>
   snd (syncOrders example_env
       (always (Resolves [example_order ''A'' None, example_order ''B'' None, example_order ''A'' None]))
       (always (Resolves example_created))
       (fst (syncOrders example_env
          (always (Resolves [example_order ''A'' None, example_order ''B'' None, example_order ''A'' None]))
          (always (Resolves example_created)) (example_world [])))) = Success 0"
proof -
  let ?os = "[example_order ''A'' None, example_order ''B'' None, example_order ''A'' None]"
  let ?g = "always (Resolves ?os) :: string option \<Rightarrow> mirakl_order list response"
  let ?c = "always (Resolves example_created) :: shopify_order_data \<Rightarrow> shopify_order response"
  let ?run1 = "syncOrders example_env ?g ?c (example_world [])"
  let ?run2 = "syncOrders example_env ?g ?c (fst ?run1)"
  have g1: "?g (lastOrderSync (syncState (example_world []))) = Resolves ?os"
    by (simp add: always_def)
  have g2: "?g (lastOrderSync (syncState (fst ?run1))) = Resolves ?os"
    by (simp add: always_def)
  have ok: "\<forall>mo\<in>set ?os. \<exists>so. ?c (shopifyOrderData mo) = Resolves so"
    by (simp add: always_def)
  from syncOrders_twice [where getOrders = ?g and createOrder = ?c and e = example_env
      and w = "example_world []" and orders = ?os and getOrders' = ?g
      and createOrder' = ?c and e' = example_env,
      OF g1 ok surjective_pairing g2 surjective_pairing]
  obtain first where
    "createOrder_calls (fst ?run1) = createOrder_calls (example_world []) @ map shopifyOrderData first"
    "createOrder_calls (fst ?run2) = createOrder_calls (fst ?run1)"
    "snd ?run2 = Success 0"
    by blast
  moreover have "createOrder_calls (fst ?run1) =
      [shopifyOrderData (example_order ''A'' None), shopifyOrderData (example_order ''B'' None)]"
    by (simp add: example_defs)
  ultimately show ?thesis by simp
qed

text \<open>
  C4, partial-batch failure. If \<open>createOrder\<close> throws for a draft that a run of \<open>syncOrders\<close>
  submits, that call is the last call of the run, the routine returns the failure result
  carrying the error's message, and both \<open>lastOrderSync\<close> and the checkpoint file are what
  they were before the run.
\<close>

theorem createOrder_failure_aborts:
  assumes run: "syncOrders e getOrders createOrder w = (w', r)"
    and calls: "createOrder_calls w' = createOrder_calls w @ new"
    and d: "d \<in> set new"
    and thr: "createOrder d = Throws err"
  shows "r = Failure (message err) \<and> last new = d \<and>
         lastOrderSync (syncState w') = lastOrderSync (syncState w) \<and> disk w' = disk w"
  using run
proof (cases rule: syncOrders_cases)
  case (fetch_throws err')
  with calls d show ?thesis by simp
next
  case no_orders
  with calls d show ?thesis by simp
next
  case (loop_throws orders err')
  from syncOrders_loop_calls [OF loop_throws(3)] calls
  have bl: "\<forall>x\<in>set (butlast new). \<exists>so. createOrder x = Resolves so"
    and l: "new \<noteq> []" "createOrder (last new) = Throws err'"
    by auto
  from d l(1) have "d \<in> set (butlast new) \<or> d = last new"
    by (cases new rule: rev_cases) auto
  with bl thr have dl: "d = last new" by auto
  with l(2) thr have "err' = err" by simp
  with dl loop_throws(4) syncOrders_loop_frame [OF loop_throws(3)] show ?thesis
    by simp
next
  case (loop_done orders w1 k)
  from syncOrders_loop_calls [OF loop_done(3)] calls loop_done(4)
  have "\<forall>x\<in>set new. \<exists>so. createOrder x = Resolves so"
    by auto
  with d thr show ?thesis by auto
qed

theorem createOrder_failure_aborts_witness:
  "createOrder_calls (fst (syncOrders example_env
       (always (Resolves [example_order ''A'' None, example_order ''B'' None, example_order ''C'' None]))
       (example_createOrder_rejecting ''B'') (example_world []))) =
     createOrder_calls (example_world []) @
       [shopifyOrderData (example_order ''A'' None), shopifyOrderData (example_order ''B'' None)] \<and>
   example_createOrder_rejecting ''B'' (shopifyOrderData (example_order ''B'' None)) =
     Throws (Error ''Unprocessable Entity'') \<and>
   snd (syncOrders example_env
       (always (Resolves [example_order ''A'' None, example_order ''B'' None, example_order ''C'' None]))
       (example_createOrder_rejecting ''B'') (example_world [])) = Failure ''Unprocessable Entity'' \<and>
   lastOrderSync (syncState (fst (syncOrders example_env
       (always (Resolves [example_order ''A'' None, example_order ''B'' None, example_order ''C'' None]))
       (example_createOrder_rejecting ''B'') (example_world [])))) = None \<and>
   disk (fst (syncOrders example_env
       (always (Resolves [example_order ''A'' None, example_order ''B'' None, example_order ''C'' None]))
       (example_createOrder_rejecting ''B'') (example_world []))) = Missing"
proof -
  let ?g = "always (Resolves [example_order ''A'' None, example_order ''B'' None, example_order ''C'' None])
              :: string option \<Rightarrow> mirakl_order list response"
  let ?run = "syncOrders example_env ?g (example_createOrder_rejecting ''B'') (example_world [])"
  let ?new = "[shopifyOrderData (example_order ''A'' None), shopifyOrderData (example_order ''B'' None)]"
  have calls: "createOrder_calls (fst ?run) = createOrder_calls (example_world []) @ ?new"
    by (simp add: example_defs)
  have d: "shopifyOrderData (example_order ''B'' None) \<in> set ?new"
    by simp
  have thr: "example_createOrder_rejecting ''B'' (shopifyOrderData (example_order ''B'' None)) =
      Throws (Error ''Unprocessable Entity'')"
    by (simp add: example_defs)
  from createOrder_failure_aborts [OF surjective_pairing calls d thr] calls thr
  show ?thesis
    by (simp add: example_world_def zero_state_def)
qed

text \<open>
  C5, processed-orders invariant. Whatever the gateways answer and whatever the fetched list
  repeats, a run of \<open>syncOrders\<close> only appends to \<open>processedOrders\<close>: the list before the run
  is a prefix of the list after it. If it had no duplicate before the run, it has none after.
\<close>

theorem processedOrders_append_only:
  assumes "syncOrders e getOrders createOrder w = (w', r)"
  shows "prefix (processedOrders (syncState w)) (processedOrders (syncState w')) \<and>
         (distinct (processedOrders (syncState w)) \<longrightarrow> distinct (processedOrders (syncState w')))"
  using assms
proof (cases rule: syncOrders_cases)
  case (fetch_throws err)
  then show ?thesis by simp
next
  case no_orders
  then show ?thesis by simp
next
  case (loop_throws orders err)
  from syncOrders_loop_processed [OF loop_throws(3)] show ?thesis
    by auto
next
  case (loop_done orders w1 k)
  from syncOrders_loop_processed [OF loop_done(3)] show ?thesis
    unfolding loop_done(4) by auto
qed

theorem processedOrders_append_only_witness:
  "prefix [''X''] (processedOrders (syncState (fst
      (syncOrders example_env
        (always (Resolves [example_order ''A'' None, example_order ''B'' None, example_order ''A'' None]))
        (always (Resolves example_created)) (example_world [''X''])))))
   \<and> processedOrders (syncState (fst
      (syncOrders example_env
        (always (Resolves [example_order ''A'' None, example_order ''B'' None, example_order ''A'' None]))
        (always (Resolves example_created)) (example_world [''X''])))) = [''X'', ''A'', ''B'']
   \<and> distinct (processedOrders (syncState (fst
      (syncOrders example_env
        (always (Resolves [example_order ''A'' None, example_order ''B'' None, example_order ''A'' None]))
        (always (Resolves example_created)) (example_world [''X''])))))"
  using processedOrders_append_only [where e = example_env
      and getOrders = "always (Resolves [example_order ''A'' None, example_order ''B'' None, example_order ''A'' None])"
      and createOrder = "always (Resolves example_created)" and w = "example_world [''X'']",
      OF surjective_pairing]
  by (simp add: example_defs)

text \<open>
  C10, email fallback. Every draft a run of \<open>syncOrders\<close> hands to \<open>createOrder\<close> is the
  draft of a fetched order. Its email is the customer's email when the customer record has a
  non-empty one, it is \<open>noemail@mirakl.order\<close> when the customer record or its email is
  absent, and it is never the empty string.
\<close>

theorem order_email_fallback:
  assumes run: "syncOrders e getOrders createOrder w = (w', r)"
    and calls: "createOrder_calls w' = createOrder_calls w @ new"
    and d: "d \<in> set new"
  shows "\<exists>orders mo. getOrders (lastOrderSync (syncState w)) = Resolves orders \<and> mo \<in> set orders \<and>
           d = shopifyOrderData mo \<and> od_email d \<noteq> [] \<and>
           (\<forall>c em. mo_customer mo = Some c \<and> cu_email c = Some em \<and> em \<noteq> [] \<longrightarrow> od_email d = em) \<and>
           (mo_customer mo = None \<or> (\<exists>c. mo_customer mo = Some c \<and> cu_email c = None)
              \<longrightarrow> od_email d = ''noemail@mirakl.order'')"
proof -
  have email: "od_email (shopifyOrderData mo) \<noteq> [] \<and>
      (\<forall>c em. mo_customer mo = Some c \<and> cu_email c = Some em \<and> em \<noteq> []
         \<longrightarrow> od_email (shopifyOrderData mo) = em) \<and>
      (mo_customer mo = None \<or> (\<exists>c. mo_customer mo = Some c \<and> cu_email c = None)
         \<longrightarrow> od_email (shopifyOrderData mo) = ''noemail@mirakl.order'')" for mo
    by (auto simp: shopifyOrderData_def customer_email_def or_str_def split: option.splits)
  from run show ?thesis
  proof (cases rule: syncOrders_cases)
    case (fetch_throws err')
    with calls d show ?thesis by simp
  next
    case no_orders
    with calls d show ?thesis by simp
  next
    case (loop_throws orders err')
    from syncOrders_loop_calls [OF loop_throws(3)] calls
    have "set new \<subseteq> shopifyOrderData ` set orders" by auto
    with d obtain mo where "mo \<in> set orders" "d = shopifyOrderData mo" by auto
    with loop_throws(1) email [of mo] show ?thesis by blast
  next
    case (loop_done orders w1 k)
    from syncOrders_loop_calls [OF loop_done(3)] calls loop_done(4)
    have "set new \<subseteq> shopifyOrderData ` set orders" by auto
    with d obtain mo where "mo \<in> set orders" "d = shopifyOrderData mo" by auto
    with loop_done(1) email [of mo] show ?thesis by blast
  qed
qed

theorem order_email_fallback_witness:
  "map od_email (createOrder_calls (fst (syncOrders example_env
       (always (Resolves [example_order ''A'' (Some ''ann@example.org''), example_order ''B'' None]))
       (always (Resolves example_created)) (example_world [])))) =
     [''ann@example.org'', ''noemail@mirakl.order''] \<and>
   (\<exists>orders mo.
       always (Resolves [example_order ''A'' (Some ''ann@example.org''), example_order ''B'' None])
         (lastOrderSync (syncState (example_world []))) = Resolves orders \<and>
       mo \<in> set orders \<and> shopifyOrderData (example_order ''B'' None) = shopifyOrderData mo \<and>
       od_email (shopifyOrderData (example_order ''B'' None)) = ''noemail@mirakl.order'')"
proof -
  let ?g = "always (Resolves [example_order ''A'' (Some ''ann@example.org''), example_order ''B'' None])
              :: string option \<Rightarrow> mirakl_order list response"
  let ?run = "syncOrders example_env ?g (always (Resolves example_created)) (example_world [])"
  let ?new = "[shopifyOrderData (example_order ''A'' (Some ''ann@example.org'')),
               shopifyOrderData (example_order ''B'' None)]"
  have calls: "createOrder_calls (fst ?run) = createOrder_calls (example_world []) @ ?new"
    by (simp add: example_defs)
  have d: "shopifyOrderData (example_order ''B'' None) \<in> set ?new"
    by simp
  have b: "mo_customer (example_order ''B'' None) = Some \<lparr> cu_email = None \<rparr>"
    by (simp add: example_order_def)
  have "map od_email (createOrder_calls (fst ?run)) = [''ann@example.org'', ''noemail@mirakl.order'']"
    by (simp add: example_defs)
  moreover from order_email_fallback [OF surjective_pairing calls d] obtain orders mo where
    "?g (lastOrderSync (syncState (example_world []))) = Resolves orders" "mo \<in> set orders"
    "shopifyOrderData (example_order ''B'' None) = shopifyOrderData mo"
    by blast
  moreover have "od_email (shopifyOrderData (example_order ''B'' None)) = ''noemail@mirakl.order''"
    by (simp add: example_defs)
  ultimately show ?thesis by blast
qed

section \<open>Tracking routine: proofs\<close>

text \<open>
  What \<open>regex_capture\<close> returns is a match of the pattern, and it returns \<open>null\<close> only when
  the pattern matches nowhere: the literal is nowhere followed by a character of the class.
\<close>

lemma regex_capture_sound:
  "regex_capture lit cls s = Some g \<Longrightarrow>
     g \<noteq> [] \<and> (\<forall>c\<in>set g. cls c) \<and>
     (\<exists>pre post. s = pre @ lit @ g @ post \<and> (post = [] \<or> \<not> cls (hd post)))"
proof (induction s)
  case Nil
  then show ?case by simp
next
  case (Cons c cs)
  let ?rest = "drop (length lit) (c # cs)"
  show ?case
  proof (cases "prefix lit (c # cs) \<and> takeWhile cls ?rest \<noteq> []")
    case True
    with Cons.prems have g: "g = takeWhile cls ?rest" by simp
    from True have "c # cs = lit @ ?rest"
      by (metis append_eq_conv_conj prefix_def)
    also have "?rest = g @ dropWhile cls ?rest"
      by (simp add: g)
    finally have eq: "c # cs = [] @ lit @ g @ dropWhile cls ?rest" by simp
    have tail: "dropWhile cls ?rest = [] \<or> \<not> cls (hd (dropWhile cls ?rest))"
      using hd_dropWhile [of cls ?rest] by blast
    have cls: "\<forall>c\<in>set g. cls c"
      unfolding g by (auto dest: set_takeWhileD)
    have ne: "g \<noteq> []"
      using True g by simp
    from eq tail have "\<exists>pre post. c # cs = pre @ lit @ g @ post \<and> (post = [] \<or> \<not> cls (hd post))"
      by (intro exI [of _ "[]"] exI [of _ "dropWhile cls ?rest"]) simp
    with ne cls show ?thesis by simp
  next
    case False
    with Cons.prems have "regex_capture lit cls cs = Some g" by auto
    from Cons.IH [OF this] obtain pre post where
      "g \<noteq> []" "\<forall>c\<in>set g. cls c" "cs = pre @ lit @ g @ post" "post = [] \<or> \<not> cls (hd post)"
      by blast
    then have "c # cs = (c # pre) @ lit @ g @ post" by simp
    with \<open>g \<noteq> []\<close> \<open>\<forall>c\<in>set g. cls c\<close> \<open>post = [] \<or> \<not> cls (hd post)\<close>
    show ?thesis by blast
  qed
qed

lemma regex_capture_complete:
  "lit \<noteq> [] \<Longrightarrow> regex_capture lit cls (pre @ lit @ c # post) = None \<Longrightarrow> \<not> cls c"
proof (induction pre)
  case Nil
  from Nil(1) obtain l ls where l: "lit = l # ls" by (cases lit) auto
  have "prefix lit (lit @ c # post)" by simp
  moreover have "drop (length lit) (lit @ c # post) = c # post" by simp
  ultimately show ?case
    using Nil(2) unfolding l
    by (auto split: if_splits)
next
  case (Cons p pre)
  then show ?case by (auto split: if_splits)
qed

lemma note_match_draft:
  assumes "mo_order_id mo \<noteq> []" and "\<forall>c\<in>set (mo_order_id mo). \<not> is_space c"
    and "so_note so = Some (od_note (shopifyOrderData mo))"
  shows "note_match so = Some (mo_order_id mo)"
proof -
  have tw: "takeWhile (\<lambda>c. \<not> is_space c) (mo_order_id mo) = mo_order_id mo"
    using assms(2) by (simp add: takeWhile_eq_all_conv)
  show ?thesis
    by (simp add: note_match_def shopifyOrderData_def assms(1,3) tw)
qed

lemma tags_match_draft:
  assumes "mo_order_id mo \<noteq> []" and "\<forall>c\<in>set (mo_order_id mo). \<not> is_space c"
    and "CHR '','' \<notin> set (mo_order_id mo)"
    and "so_tags so = Some (od_tags (shopifyOrderData mo))"
  shows "tags_match so = Some (mo_order_id mo)"
proof -
  have tw: "takeWhile (\<lambda>c. \<not> is_space c \<and> c \<noteq> CHR '','') (mo_order_id mo) = mo_order_id mo"
    using assms(2,3) by (auto simp: takeWhile_eq_all_conv)
  show ?thesis
    by (simp add: tags_match_def shopifyOrderData_def assms(1,4) tw)
qed

text \<open>
  C3, correlation round-trip. Let the marketplace order identifier be non-empty and free of
  whitespace. A storefront order that carries the note \<open>syncOrders\<close> wrote yields exactly that
  identifier, whatever its tags are; if its note does not match but it carries the tags
  \<open>syncOrders\<close> wrote and the identifier has no comma, the tags yield it. For any storefront
  order the note is tried first and the tags are used only when the note does not match. If
  neither matches, \<open>extractMiraklOrderId\<close> returns \<open>null\<close> and the loop of \<open>syncTracking\<close> goes
  on with the next order in the same world: no remote call is made for the skipped order.
\<close>

theorem correlation_round_trip:
  assumes "mo_order_id mo \<noteq> []" and "\<forall>c\<in>set (mo_order_id mo). \<not> is_space c"
  shows "(so_note so = Some (od_note (shopifyOrderData mo)) \<longrightarrow>
            extractMiraklOrderId so = Some (mo_order_id mo)) \<and>
         (note_match so = None \<and> so_tags so = Some (od_tags (shopifyOrderData mo)) \<and>
            CHR '','' \<notin> set (mo_order_id mo) \<longrightarrow>
            extractMiraklOrderId so = Some (mo_order_id mo)) \<and>
         (\<forall>m. note_match so' = Some m \<longrightarrow> extractMiraklOrderId so' = Some m) \<and>
         (note_match so' = None \<longrightarrow> extractMiraklOrderId so' = tags_match so') \<and>
         (note_match so' = None \<and> tags_match so' = None \<longrightarrow>
            extractMiraklOrderId so' = None \<and>
            syncTracking_loop getFulfillments updateTracking (so' # orders) w n =
              syncTracking_loop getFulfillments updateTracking orders w n)"
  using note_match_draft [OF assms] tags_match_draft [OF assms]
  by (simp add: extractMiraklOrderId_def)

theorem correlation_round_trip_witness:
  "mo_order_id (example_order ''ABC123'' None) \<noteq> [] \<and>
   extractMiraklOrderId (example_stored (shopifyOrderData (example_order ''ABC123'' None))) =
     Some ''ABC123'' \<and>
   extractMiraklOrderId ((example_stored (shopifyOrderData (example_order ''ABC123'' None)))
       \<lparr>so_note := Some ''Leave at the door''\<rparr>) = Some ''ABC123'' \<and>
   extractMiraklOrderId \<lparr> so_id = 2, so_order_number = 1002, so_tags = Some ''Mirakl,VIP'',
       so_note = Some ''Leave at the door'', so_fulfillment_status = Some ''fulfilled'' \<rparr> = None"
proof -
  have ne: "mo_order_id (example_order ''ABC123'' None) \<noteq> []"
    by (simp add: example_order_def)
  have ns: "\<forall>c\<in>set (mo_order_id (example_order ''ABC123'' None)). \<not> is_space c"
    by (simp add: example_order_def is_space_def)
  let ?so = "example_stored (shopifyOrderData (example_order ''ABC123'' None))"
  let ?lost = "\<lparr> so_id = 2, so_order_number = 1002, so_tags = Some ''Mirakl,VIP'',
       so_note = Some ''Leave at the door'', so_fulfillment_status = Some ''fulfilled'' \<rparr>"
  have n1: "so_note ?so = Some (od_note (shopifyOrderData (example_order ''ABC123'' None)))"
    by (simp add: example_stored_def)
  have n2: "note_match (?so\<lparr>so_note := Some ''Leave at the door''\<rparr>) = None"
    by (simp add: note_match_def)
  have t2: "so_tags (?so\<lparr>so_note := Some ''Leave at the door''\<rparr>) =
      Some (od_tags (shopifyOrderData (example_order ''ABC123'' None)))"
    by (simp add: example_stored_def)
  have c2: "CHR '','' \<notin> set (mo_order_id (example_order ''ABC123'' None))"
    by (simp add: example_order_def)
  have n3: "note_match ?lost = None" and t3: "tags_match ?lost = None"
    by (simp_all add: note_match_def tags_match_def)
  from correlation_round_trip [OF ne ns, of ?so ?lost] n1
  have a: "extractMiraklOrderId ?so = Some (mo_order_id (example_order ''ABC123'' None))"
    and c: "extractMiraklOrderId ?lost = None"
    using n3 t3 by blast+
  from correlation_round_trip [OF ne ns, of "?so\<lparr>so_note := Some ''Leave at the door''\<rparr>"] n2 t2 c2
  have b: "extractMiraklOrderId (?so\<lparr>so_note := Some ''Leave at the door''\<rparr>) =
      Some (mo_order_id (example_order ''ABC123'' None))"
    by blast
  from ne a b c show ?thesis
    by (simp add: example_order_def)
qed

text \<open>
  The empty identifier contains no whitespace, and the order \<open>syncOrders\<close> creates for it is
  not recoverable: both patterns require at least one character after the literal.
\<close>

theorem correlation_empty_id_counterexample:
  "extractMiraklOrderId (example_stored (shopifyOrderData (example_order [] None))) = None"
  by (simp add: extractMiraklOrderId_def note_match_def tags_match_def example_stored_def
      shopifyOrderData_def example_order_def)

section \<open>Checkpoint: proofs\<close>

text \<open>
  C9, checkpoint load. \<open>loadSyncState\<close> returns a checkpoint in every case. With no file it
  returns the zero-value checkpoint and logs nothing. When reading the file throws or its
  contents fail to parse, it returns the zero-value checkpoint and logs the error's message.
  When the contents parse, it returns the parsed record and logs nothing. The zero-value
  checkpoint has every timestamp absent and an empty \<open>processedOrders\<close>.
\<close>

theorem loadSyncState_cases:
  "loadSyncState parse Missing = (zero_state, []) \<and>
   loadSyncState parse (Unreadable err) = (zero_state, [Error_loading_sync_state (message err)]) \<and>
   (parse body = Throws err \<longrightarrow>
      loadSyncState parse (Contents body) = (zero_state, [Error_loading_sync_state (message err)])) \<and>
   (parse body = Resolves s \<longrightarrow> loadSyncState parse (Contents body) = (s, [])) \<and>
   lastProductSync zero_state = None \<and> lastInventorySync zero_state = None \<and>
   lastOrderSync zero_state = None \<and> lastTrackingSync zero_state = None \<and>
   processedOrders zero_state = []"
  by (simp add: loadSyncState_def read_sync_state_def zero_state_def)

theorem loadSyncState_cases_witness:
  "loadSyncState example_parse (Contents example_file) =
     (zero_state\<lparr>processedOrders := [''A'']\<rparr>, []) \<and>
   loadSyncState example_parse (Contents (take 5 example_file)) =
     (zero_state, [Error_loading_sync_state ''Unexpected end of JSON input''])"
proof -
  have a: "example_parse example_file = Resolves (zero_state\<lparr>processedOrders := [''A'']\<rparr>)"
    by (simp add: example_parse_def)
  have b: "example_parse (take 5 example_file) = Throws (Error ''Unexpected end of JSON input'')"
    by (simp add: example_parse_def example_file_def)
  from loadSyncState_cases [where parse = example_parse and body = example_file
      and s = "zero_state\<lparr>processedOrders := [''A'']\<rparr>"] a
  have 1: "loadSyncState example_parse (Contents example_file) =
      (zero_state\<lparr>processedOrders := [''A'']\<rparr>, [])"
    by blast
  from loadSyncState_cases [where parse = example_parse and body = "take 5 example_file"
      and err = "Error ''Unexpected end of JSON input''"] b
  have 2: "loadSyncState example_parse (Contents (take 5 example_file)) =
      (zero_state, [Error_loading_sync_state ''Unexpected end of JSON input''])"
    by simp
  from 1 2 show ?thesis by blast
qed

text \<open>
  With no file, nothing is written to the log.
\<close>

theorem loadSyncState_missing_counterexample:
  "snd (loadSyncState example_parse Missing) = []"
  by (simp add: loadSyncState_def read_sync_state_def)

section \<open>Offer and inventory routines: proofs\<close>

text \<open>
  C6, sku fallback. In the simplified application the sku of an offer row is the variant's
  sku when that is a non-empty string, otherwise its barcode when that is a non-empty
  string, otherwise \<open>SHOPIFY-\<close> followed by the variant's id. In \<open>syncProducts\<close> of
  \<open>index.js\<close> it is the variant's non-empty sku, otherwise \<open>SHOPIFY-\<close> followed by the id; the
  barcode is not consulted. The sku is the first field of the row in both.
\<close>

theorem sku_fallback:
  "offer_sku v =
     (if truthy (v_sku v) then opt_str (v_sku v)
      else if truthy (v_barcode v) then opt_str (v_barcode v)
      else ''SHOPIFY-'' @ show_nat (v_id v)) \<and>
   product_sku v =
     (if truthy (v_sku v) then opt_str (v_sku v) else ''SHOPIFY-'' @ show_nat (v_id v)) \<and>
   hd (offer_fields m p v) = offer_sku v \<and> hd (product_fields p v) = product_sku v"
  by (simp add: offer_sku_def product_sku_def offer_fields_def product_fields_def or_str_def
      truthy_def opt_str_def split: option.splits)

theorem sku_fallback_witness:
  "offer_sku (example_variant 987 None None) = ''SHOPIFY-987'' \<and>
   offer_sku (example_variant 987 (Some []) (Some ''4006381333931'')) = ''4006381333931'' \<and>
   offer_sku (example_variant 987 (Some ''A1'') (Some ''4006381333931'')) = ''A1'' \<and>
   product_sku (example_variant 987 None None) = ''SHOPIFY-987''"
proof -
  have n: "show_nat 987 = ''987''"
    by code_simp
  show ?thesis
    using sku_fallback [of "example_variant 987 None None"]
      sku_fallback [of "example_variant 987 (Some []) (Some ''4006381333931'')"]
      sku_fallback [of "example_variant 987 (Some ''A1'') (Some ''4006381333931'')"]
    by (simp add: example_variant_def truthy_def opt_str_def n)
qed

text \<open>
  \<open>syncProducts\<close> of \<open>index.js\<close> does not fall back to the barcode.
\<close>

theorem product_sku_ignores_barcode_counterexample:
  "product_sku (example_variant 987 None (Some ''4006381333931'')) \<noteq> ''4006381333931''"
proof -
  have n: "show_nat 987 = ''987''"
    by code_simp
  show ?thesis
    by (simp add: product_sku_def example_variant_def or_str_def n)
qed

text \<open>
  C2, quantity clamp. \<open>syncInventory\<close> of \<open>index.js\<close> does not clamp: for an inventory level
  with \<open>available: -5\<close> the payload it hands to the offer import carries the quantity
  \<open>-5\<close>.
\<close>

theorem syncInventory_transmits_negative_quantity:
  "offer_imports (fst (syncInventory e (Resolves [example_product [example_variant 987 (Some ''A1'') None]])
       (always (Resolves [\<lparr> l_inventory_item_id = 1, l_available = Some (- 5) \<rparr>]))
       (always (Resolves \<lparr> import_id = 7 \<rparr>)) w)) =
     offer_imports w @ [''sku;quantity'' @ [CHR 0x0A] @ ''A1;-5'']"
proof -
  have n: "show_nat 5 = ''5''"
    by code_simp
  show ?thesis
    by (simp add: syncInventory_def example_product_def example_variant_def always_def
        inventory_csvLines_def inventory_line_def inventory_quantity_def inventoryMap_def
        or_zero_def or_str_def show_int_def join_def n Let_def)
qed

text \<open>
  The simplified application clamps twice, when it builds the map and when it reads it: its
  quantity is the maximum of zero and the level the unclamped map holds.
\<close>

lemma inventoryMap_simplified_clamps:
  "inventoryMap_simplified levels k = map_option (max 0) (inventoryMap levels k)"
proof -
  have "m' k = map_option (max 0) (m k) \<Longrightarrow>
        fold (\<lambda>level m. m(l_inventory_item_id level \<mapsto> max 0 (or_zero (l_available level))))
          levels m' k =
        map_option (max 0)
          (fold (\<lambda>level m. m(l_inventory_item_id level \<mapsto> or_zero (l_available level))) levels m k)"
    for m m' :: "nat \<rightharpoonup> int"
    by (induction levels arbitrary: m m') auto
  from this [of Map.empty Map.empty] show ?thesis
    by (simp add: inventoryMap_simplified_def inventoryMap_def)
qed

lemma offer_quantity_clamped:
  "offer_quantity (inventoryMap_simplified levels) v =
     max 0 (or_zero (inventoryMap levels (v_inventory_item_id v))) \<and>
   0 \<le> offer_quantity m v"
  by (cases "inventoryMap levels (v_inventory_item_id v)")
     (simp_all add: offer_quantity_def inventoryMap_simplified_clamps or_zero_def)

lemma split_on_append:
  "sep \<notin> set l \<Longrightarrow> split_on sep (l @ sep # rest) = l # split_on sep rest"
  by (induction l) auto

lemma split_on_plain: "sep \<notin> set l \<Longrightarrow> split_on sep l = [l]"
  by (induction l) auto

lemma split_on_join:
  "\<forall>l\<in>set (x # xs). sep \<notin> set l \<Longrightarrow> split_on sep (join [sep] (x # xs)) = x # xs"
proof (induction xs arbitrary: x)
  case Nil
  then show ?case by (simp add: join_def split_on_plain)
next
  case (Cons y ys)
  have "join [sep] (x # y # ys) = x @ sep # join [sep] (y # ys)"
    by (simp add: join_def)
  moreover have "split_on sep (join [sep] (y # ys)) = y # ys"
    using Cons.prems by (intro Cons.IH) simp
  ultimately show ?case
    using Cons.prems by (simp add: split_on_append)
qed

lemma first_line_join:
  assumes "sep \<notin> set x"
  shows "takeWhile (\<lambda>c. c \<noteq> sep) (join [sep] (x # xs)) = x"
proof -
  have x: "takeWhile (\<lambda>c. c \<noteq> sep) x = x"
    using assms by (auto simp: takeWhile_eq_all_conv)
  show ?thesis
  proof (cases xs)
    case Nil
    with x show ?thesis by (simp add: join_def)
  next
    case (Cons y ys)
    have "\<exists>r. join [sep] (x # xs) = x @ sep # r"
      by (simp add: join_def Cons)
    moreover have "takeWhile (\<lambda>c. c \<noteq> sep) (x @ sep # r) = takeWhile (\<lambda>c. c \<noteq> sep) x" for r
      by (rule takeWhile_tail) simp
    ultimately show ?thesis
      using x by auto
  qed
qed

lemma concat_map_map_Pair:
  "concat (map (\<lambda>p. map (f p) (g p)) ps) = map (\<lambda>(p, v). f p v) (concat (map (\<lambda>p. map (Pair p) (g p)) ps))"
  by (induction ps) auto

lemma product_csvLines_shape:
  "join [CHR 0x0A] (product_csvLines products) =
     csv_payload product_header (\<lambda>(p, v). join '';'' (product_fields p v)) (variants_in_order products)"
  unfolding product_csvLines_def csv_payload_def variants_in_order_def
  using concat_map_map_Pair [of "\<lambda>p v. join '';'' (product_fields p v)" p_variants products]
  by simp

lemma offer_csvLines_shape:
  "join [CHR 0x0A] (offer_csvLines m products) =
     csv_payload offer_header (\<lambda>(p, v). join '';'' (offer_fields m p v)) (variants_in_order products)"
  unfolding offer_csvLines_def csv_payload_def variants_in_order_def
  using concat_map_map_Pair [of "\<lambda>p v. join '';'' (offer_fields m p v)" p_variants products]
  by simp

lemma inventory_csvLines_shape:
  "join [CHR 0x0A] (inventory_csvLines m products) =
     csv_payload ''sku;quantity'' (\<lambda>(p, v). inventory_line m v) (variants_in_order products)"
  unfolding inventory_csvLines_def csv_payload_def variants_in_order_def
  using concat_map_map_Pair [of "\<lambda>p v. inventory_line m v" p_variants products]
  by simp

lemma inventoryItemIds_in_order:
  "concat (map (\<lambda>p. map v_inventory_item_id (p_variants p)) products) =
     map (v_inventory_item_id \<circ> snd) (variants_in_order products)"
  by (induction products) (simp_all add: variants_in_order_def)

lemma syncProducts_imports:
  "offer_imports (fst (syncProducts e getProducts importProducts w)) = offer_imports w \<or>
   (\<exists>products. getProducts = Resolves products \<and> products \<noteq> [] \<and>
      offer_imports (fst (syncProducts e getProducts importProducts w)) =
        offer_imports w @
          [csv_payload product_header (\<lambda>(p, v). join '';'' (product_fields p v))
             (variants_in_order products)])"
proof (cases getProducts)
  case (Throws err)
  then show ?thesis by (simp add: syncProducts_def)
next
  case (Resolves products)
  show ?thesis
  proof (cases "products = []")
    case True
    with Resolves show ?thesis by (simp add: syncProducts_def)
  next
    case False
    with Resolves have "offer_imports (fst (syncProducts e getProducts importProducts w)) =
        offer_imports w @ [join [CHR 0x0A] (product_csvLines products)]"
      by (cases "importProducts (join [CHR 0x0A] (product_csvLines products))")
         (simp_all add: syncProducts_def Let_def)
    with Resolves False show ?thesis
      by (simp add: product_csvLines_shape)
  qed
qed

lemma syncInventory_simplified_imports:
  "offer_imports (fst (syncInventory_simplified e getProducts getInventoryLevels updateOffers w)) =
     offer_imports w \<or>
   (\<exists>products levels. getProducts = Resolves products \<and> products \<noteq> [] \<and>
      getInventoryLevels (map (v_inventory_item_id \<circ> snd) (variants_in_order products)) = Resolves levels \<and>
      offer_imports (fst (syncInventory_simplified e getProducts getInventoryLevels updateOffers w)) =
        offer_imports w @
          [csv_payload offer_header
             (\<lambda>(p, v). join '';'' (offer_fields (inventoryMap_simplified levels) p v))
             (variants_in_order products)])"
proof (cases getProducts)
  case (Throws err)
  then show ?thesis by (simp add: syncInventory_simplified_def)
next
  case (Resolves products)
  let ?ids = "map (v_inventory_item_id \<circ> snd) (variants_in_order products)"
  show ?thesis
  proof (cases "products = []")
    case True
    with Resolves show ?thesis by (simp add: syncInventory_simplified_def)
  next
    case False
    show ?thesis
    proof (cases "getInventoryLevels ?ids")
      case (Throws err)
      with Resolves False show ?thesis
        by (simp add: syncInventory_simplified_def inventoryItemIds_in_order)
    next
      case levels: (Resolves levels)
      let ?csv = "join [CHR 0x0A] (offer_csvLines (inventoryMap_simplified levels) products)"
      from Resolves False levels
      have "offer_imports (fst (syncInventory_simplified e getProducts getInventoryLevels updateOffers w)) =
          offer_imports w @ [?csv]"
        by (cases "updateOffers ?csv")
           (simp_all add: syncInventory_simplified_def Let_def inventoryItemIds_in_order)
      with Resolves False levels show ?thesis
        by (simp add: offer_csvLines_shape)
    qed
  qed
qed

lemma syncInventory_imports:
  "offer_imports (fst (syncInventory e getProducts getInventoryLevels updateOffers w)) =
     offer_imports w \<or>
   (\<exists>products levels. getProducts = Resolves products \<and> variants_in_order products \<noteq> [] \<and>
      getInventoryLevels (map (v_inventory_item_id \<circ> snd) (variants_in_order products)) = Resolves levels \<and>
      offer_imports (fst (syncInventory e getProducts getInventoryLevels updateOffers w)) =
        offer_imports w @
          [csv_payload ''sku;quantity'' (\<lambda>(p, v). inventory_line (inventoryMap levels) v)
             (variants_in_order products)])"
proof (cases getProducts)
  case (Throws err)
  then show ?thesis by (simp add: syncInventory_def)
next
  case (Resolves products)
  let ?ids = "map (v_inventory_item_id \<circ> snd) (variants_in_order products)"
  show ?thesis
  proof (cases "variants_in_order products = []")
    case True
    with Resolves show ?thesis by (simp add: syncInventory_def inventoryItemIds_in_order)
  next
    case False
    show ?thesis
    proof (cases "getInventoryLevels ?ids")
      case (Throws err)
      with Resolves False show ?thesis
        by (simp add: syncInventory_def inventoryItemIds_in_order)
    next
      case levels: (Resolves levels)
      let ?csv = "join [CHR 0x0A] (inventory_csvLines (inventoryMap levels) products)"
      from Resolves False levels
      have "offer_imports (fst (syncInventory e getProducts getInventoryLevels updateOffers w)) =
          offer_imports w @ [?csv]"
        by (cases "updateOffers ?csv")
           (simp_all add: syncInventory_def Let_def inventoryItemIds_in_order)
      with Resolves False levels show ?thesis
        by (simp add: inventory_csvLines_shape)
    qed
  qed
qed

text \<open>
  C8, payload of the offer import. Each of the three routines hands over at most one payload
  per run, and only when it fetched something to send. For \<open>syncProducts\<close> of \<open>index.js\<close> the
  payload is the header \<open>sku;product-id;product-id-type;price;quantity;state;description\<close> and
  one line per variant, products in fetch order and the variants of each in theirs; a line
  joins sku, sku, \<open>SHOP_SKU\<close>, price, quantity, \<open>11\<close> and the description between double
  quotes with semicolons. For \<open>syncInventory\<close> of the simplified application the header ends in
  \<open>;leadtime-to-ship\<close> and each line in the field \<open>2\<close>. For \<open>syncInventory\<close> of \<open>index.js\<close> the
  header is \<open>sku;quantity\<close>, followed by one line per variant. The first line of such a
  payload is its header; when no line contains a line feed, splitting the payload at line
  feeds gives the header and the lines, so there are as many lines after the header as there
  are variants.
\<close>

theorem offer_import_payload:
  "(offer_imports (fst (syncProducts e getProducts importProducts w)) = offer_imports w \<or>
    (\<exists>products. getProducts = Resolves products \<and> products \<noteq> [] \<and>
       offer_imports (fst (syncProducts e getProducts importProducts w)) =
         offer_imports w @
           [csv_payload product_header (\<lambda>(p, v). join '';'' (product_fields p v))
              (variants_in_order products)])) \<and>
   (offer_imports (fst (syncInventory_simplified e getProducts getInventoryLevels updateOffers w)) =
      offer_imports w \<or>
    (\<exists>products levels. getProducts = Resolves products \<and> products \<noteq> [] \<and>
       getInventoryLevels (map (v_inventory_item_id \<circ> snd) (variants_in_order products)) =
         Resolves levels \<and>
       offer_imports (fst (syncInventory_simplified e getProducts getInventoryLevels updateOffers w)) =
         offer_imports w @
           [csv_payload offer_header
              (\<lambda>(p, v). join '';'' (offer_fields (inventoryMap_simplified levels) p v))
              (variants_in_order products)])) \<and>
   (offer_imports (fst (syncInventory e getProducts getInventoryLevels updateOffers w)) =
      offer_imports w \<or>
    (\<exists>products levels. getProducts = Resolves products \<and> variants_in_order products \<noteq> [] \<and>
       getInventoryLevels (map (v_inventory_item_id \<circ> snd) (variants_in_order products)) =
         Resolves levels \<and>
       offer_imports (fst (syncInventory e getProducts getInventoryLevels updateOffers w)) =
         offer_imports w @
           [csv_payload ''sku;quantity'' (\<lambda>(p, v). inventory_line (inventoryMap levels) v)
              (variants_in_order products)])) \<and>
   product_header = ''sku;product-id;product-id-type;price;quantity;state;description'' \<and>
   offer_header = product_header @ '';leadtime-to-ship'' \<and>
   product_fields p v =
     [product_sku v, product_sku v, ''SHOP_SKU'', opt_str (v_price v),
      show_int (or_zero (v_inventory_quantity v)), ''11'',
      CHR 0x22 # cleanDescription (p_body_html p) @ [CHR 0x22]] \<and>
   offer_fields m p v =
     [offer_sku v, offer_sku v, ''SHOP_SKU'', or_str (v_price v) ''0.00'',
      show_int (offer_quantity m v), ''11'', CHR 0x22 # offer_description p @ [CHR 0x22], ''2''] \<and>
   (CHR 0x0A \<notin> set header \<longrightarrow>
      takeWhile (\<lambda>c. c \<noteq> CHR 0x0A) (csv_payload header line xs) = header) \<and>
   (CHR 0x0A \<notin> set header \<and> (\<forall>x\<in>set xs. CHR 0x0A \<notin> set (line x)) \<longrightarrow>
      split_on (CHR 0x0A) (csv_payload header line xs) = header # map line xs) \<and>
   length (variants_in_order ps) = sum_list (map (\<lambda>p. length (p_variants p)) ps)"
proof -
  have "length (variants_in_order ps) = sum_list (map (\<lambda>p. length (p_variants p)) ps)"
    by (induction ps) (simp_all add: variants_in_order_def)
  moreover have "CHR 0x0A \<notin> set header \<longrightarrow>
      takeWhile (\<lambda>c. c \<noteq> CHR 0x0A) (csv_payload header line xs) = header"
    by (simp add: csv_payload_def first_line_join)
  moreover have "CHR 0x0A \<notin> set header \<and> (\<forall>x\<in>set xs. CHR 0x0A \<notin> set (line x)) \<longrightarrow>
      split_on (CHR 0x0A) (csv_payload header line xs) = header # map line xs"
    unfolding csv_payload_def by (intro impI split_on_join) auto
  moreover have "product_header = ''sku;product-id;product-id-type;price;quantity;state;description''"
    and "offer_header = product_header @ '';leadtime-to-ship''"
    by (simp_all add: product_header_def offer_header_def)
  moreover have "product_fields p v =
     [product_sku v, product_sku v, ''SHOP_SKU'', opt_str (v_price v),
      show_int (or_zero (v_inventory_quantity v)), ''11'',
      CHR 0x22 # cleanDescription (p_body_html p) @ [CHR 0x22]]"
    by (simp add: product_fields_def quoted_def)
  moreover have "offer_fields m p v =
     [offer_sku v, offer_sku v, ''SHOP_SKU'', or_str (v_price v) ''0.00'',
      show_int (offer_quantity m v), ''11'', CHR 0x22 # offer_description p @ [CHR 0x22], ''2'']"
    by (simp add: offer_fields_def quoted_def)
  ultimately show ?thesis
    using syncProducts_imports [of e getProducts importProducts w]
      syncInventory_simplified_imports [of e getProducts getInventoryLevels updateOffers w]
      syncInventory_imports [of e getProducts getInventoryLevels updateOffers w]
    by blast
qed

theorem offer_import_payload_witness:
  \<open>offer_imports (fst (syncProducts example_env
       (Resolves [example_product [example_variant 987 (Some ''A1'') None]])
       (always (Resolves \<lparr> import_id = 7 \<rparr>)) (example_world []))) =
     [''sku;product-id;product-id-type;price;quantity;state;description'' @ [CHR 0x0A] @
      ''A1;A1;SHOP_SKU;10.00;3;11;"Nice mug"''] \<and>
   split_on (CHR 0x0A)
     (csv_payload product_header (\<lambda>(p, v). join '';'' (product_fields p v))
        (variants_in_order [example_product [example_variant 987 (Some ''A1'') None]])) =
     [''sku;product-id;product-id-type;price;quantity;state;description'',
      ''A1;A1;SHOP_SKU;10.00;3;11;"Nice mug"'']\<close>
proof -
  have n: "show_nat 3 = ''3''"
    by code_simp
  let ?ps = "[example_product [example_variant 987 (Some ''A1'') None]]"
  let ?line = "\<lambda>(p, v). join '';'' (product_fields p v)"
  have row: \<open>map ?line (variants_in_order ?ps) = [''A1;A1;SHOP_SKU;10.00;3;11;"Nice mug"'']\<close>
    by (simp add: variants_in_order_def example_product_def example_variant_def product_fields_def
        product_sku_def or_str_def opt_str_def or_zero_def show_int_def n quoted_def
        cleanDescription_def double_quotes_def join_def)
  have h: "CHR 0x0A \<notin> set product_header \<and>
      (\<forall>x\<in>set (variants_in_order ?ps). CHR 0x0A \<notin> set (?line x))"
    using row by (simp add: product_header_def variants_in_order_def example_product_def)
  from offer_import_payload [where header = product_header and line = ?line
      and xs = "variants_in_order ?ps"] h
  have "split_on (CHR 0x0A) (csv_payload product_header ?line (variants_in_order ?ps)) =
      product_header # map ?line (variants_in_order ?ps)"
    by blast
  moreover have \<open>offer_imports (fst (syncProducts example_env (Resolves ?ps)
       (always (Resolves \<lparr> import_id = 7 \<rparr>)) (example_world []))) =
     [''sku;product-id;product-id-type;price;quantity;state;description'' @ [CHR 0x0A] @
      ''A1;A1;SHOP_SKU;10.00;3;11;"Nice mug"'']\<close>
    by (simp add: syncProducts_def product_csvLines_def always_def example_world_def Let_def
        product_header_def join_def example_product_def example_variant_def product_fields_def
        product_sku_def or_str_def opt_str_def or_zero_def show_int_def n quoted_def
        cleanDescription_def double_quotes_def)
  ultimately show ?thesis
    using row by (simp add: product_header_def)
qed

text \<open>
  The payload \<open>syncInventory\<close> of \<open>index.js\<close> hands to the offer import starts with the header
  \<open>sku;quantity\<close>.
\<close>

theorem syncInventory_payload_counterexample:
  "offer_imports (fst (syncInventory example_env
       (Resolves [example_product [example_variant 987 (Some ''A1'') None]])
       (always (Resolves [\<lparr> l_inventory_item_id = 1, l_available = Some 3 \<rparr>]))
       (always (Resolves \<lparr> import_id = 7 \<rparr>)) (example_world []))) =
     [''sku;quantity'' @ [CHR 0x0A] @ ''A1;3'']"
proof -
  have n: "show_nat 3 = ''3''"
    by code_simp
  show ?thesis
    by (simp add: syncInventory_def example_product_def example_variant_def always_def
        example_world_def inventory_csvLines_def inventory_line_def inventory_quantity_def
        inventoryMap_def or_zero_def or_str_def show_int_def join_def n Let_def)
qed

end
